theory Spec2Isabelle
  imports Main "HOL-Library.Sublist"
begin

section \<open>The GNU jobserver client of ninja: \<^verbatim>\<open>src/jobserver-posix.cc\<close>\<close>

text \<open>
  The client is a C++ object with six fields, driven by one thread. Its methods call
  \<^verbatim>\<open>open\<close>, \<^verbatim>\<open>read\<close>, \<^verbatim>\<open>write\<close> and \<^verbatim>\<open>close\<close>, read \<^verbatim>\<open>errno\<close>, and report through
  \<^verbatim>\<open>Info\<close>, \<^verbatim>\<open>Warning\<close> and \<^verbatim>\<open>Fatal\<close>. The embedding passes two states explicitly: the
  object (\<open>jobserver\<close>) and the process's view of the operating system (\<open>world\<close>).
  Strings are C strings: character lists without the terminating NUL.
\<close>

subsection \<open>The operating system and the diagnostics\<close>

text \<open>
  What a system call answers: \<open>Ok n\<close> is the non-negative return value \<open>n\<close>;
  \<open>Err e\<close> is the return value \<open>-1\<close> with \<^verbatim>\<open>errno\<close> set to \<open>e\<close>.
\<close>

datatype sysret = Ok nat | Err int

datatype open_flags = O_RDONLY_NONBLOCK | O_WRONLY

text \<open>The arguments of a printf-style diagnostic, kept unformatted.\<close>

datatype arg = Str string | Num int | Strerror int

text \<open>Everything the process does that is visible from outside, in order.\<close>

datatype event =
    Sys_open string open_flags
  | Sys_read int
  | Sys_write int char
  | Sys_close int
  | Info string "arg list"
  | Warning string "arg list"
  | Fatal string "arg list"

text \<open>
  The world: \<open>answers w k\<close> is what the \<open>k\<close>-th system call of the process will
  answer, \<open>calls\<close> counts the system calls made so far, \<open>errno\<close> is the C variable,
  \<open>trace\<close> the events so far. \<open>EAGAIN\<close> and \<open>EWOULDBLOCK\<close> are the platform's
  values of these two constants of \<^verbatim>\<open><errno.h>\<close>, which is not part of the repository;
  they are parameters of the world and never change.
\<close>

record world =
  answers :: "nat \<Rightarrow> sysret"
  calls :: nat
  errno :: int
  EAGAIN :: int
  EWOULDBLOCK :: int
  trace :: "event list"

definition syscall :: "event \<Rightarrow> world \<Rightarrow> int \<times> world" where
  "syscall e w =
     (let w' = w\<lparr>calls := calls w + 1, trace := trace w @ [e]\<rparr>
      in case answers w (calls w) of
           Ok n \<Rightarrow> (int n, w')
         | Err en \<Rightarrow> (- 1, w'\<lparr>errno := en\<rparr>))"

definition diag :: "event \<Rightarrow> world \<Rightarrow> world" where
  "diag e w = w\<lparr>trace := trace w @ [e]\<rparr>"

text \<open>
  Modelled from the spec: \<^verbatim>\<open>Fatal\<close>, \<^verbatim>\<open>Warning\<close> and \<^verbatim>\<open>Info\<close> are declared in
  \<^verbatim>\<open>util.h\<close>, which is missing. The spec says that a fatal diagnostic always
  terminates the process and that the other two do not; so \<^verbatim>\<open>Fatal\<close> is its event
  followed by \<open>Exits\<close>, and \<^verbatim>\<open>Warning\<close> and \<^verbatim>\<open>Info\<close> are events only.

  How a method ends: it returns a value (\<open>Returns\<close>), or the process exits
  (\<open>Exits\<close>), or the behaviour is undefined in C (\<open>Undefined\<close>: overflow of a
  signed \<^verbatim>\<open>int\<close>, or a scanned number that does not fit one).
\<close>

datatype 'a result = Returns 'a | Exits | Undefined

definition INT_MAX :: int where
  "INT_MAX = 2147483647"

definition INT_MIN :: int where
  "INT_MIN = - 2147483648"

subsection \<open>The object\<close>

text \<open>The fields of \<^verbatim>\<open>struct Jobserver\<close> (\<^verbatim>\<open>jobserver.h\<close>), without the trailing underscore.\<close>

record jobserver =
  token_count :: int
  jobserver_name :: string
  jobserver_closed :: bool
  jobserver_fifo :: bool
  rfd :: int
  wfd :: int

text \<open>The default member initialisers of \<^verbatim>\<open>jobserver.h\<close>.\<close>

definition initial :: jobserver where
  "initial = \<lparr>token_count = 0, jobserver_name = [], jobserver_closed = False,
              jobserver_fifo = False, rfd = - 1, wfd = - 1\<rparr>"

definition Enabled :: "jobserver \<Rightarrow> bool" where
  "Enabled s \<longleftrightarrow> rfd s \<ge> 0 \<and> wfd s \<ge> 0"

definition Tokens :: "jobserver \<Rightarrow> int" where
  "Tokens s = token_count s"

subsection \<open>Acquire, Release, Clear\<close>

text \<open>The end of \<^verbatim>\<open>Acquire\<close>: \<^verbatim>\<open>if (ret > 0) token_count_++; return ret > 0;\<close>\<close>

definition Acquire_tail :: "int \<Rightarrow> jobserver \<Rightarrow> world \<Rightarrow> (bool \<times> jobserver) result \<times> world" where
  "Acquire_tail ret s w =
     (if ret > 0 then
        (if token_count s = INT_MAX then (Undefined, w)
         else (Returns (True, s\<lparr>token_count := token_count s + 1\<rparr>), w))
      else (Returns (False, s), w))"

definition Acquire :: "jobserver \<Rightarrow> world \<Rightarrow> (bool \<times> jobserver) result \<times> world" where
  "Acquire s w =
     (if token_count s \<le> 0 \<or> jobserver_closed s then
        (Returns (True, s\<lparr>token_count := 1\<rparr>), w)
      else
        (case syscall (Sys_read (rfd s)) w of (ret, w1) \<Rightarrow>
           if ret < 0 \<and> errno w1 \<noteq> EAGAIN w1 \<and> errno w1 \<noteq> EWOULDBLOCK w1 then
             (let s1 = s\<lparr>jobserver_closed := True\<rparr> in
              if \<not> jobserver_fifo s1 then
                Acquire_tail ret s1
                  (diag (Warning ''pipe closed: %d (mark the command as recursive)''
                           [Num (rfd s1)]) w1)
              else
                (Exits, diag (Fatal ''failed to read from jobserver: %d: %s''
                                [Num (rfd s1), Strerror (errno w1)]) w1))
           else Acquire_tail ret s w1))"

definition Release :: "jobserver \<Rightarrow> world \<Rightarrow> jobserver result \<times> world" where
  "Release s w =
     (let s1 = (if token_count s < 0 then s\<lparr>token_count := 0\<rparr> else s);
          s2 = (if token_count s1 > 0 then s1\<lparr>token_count := token_count s1 - 1\<rparr> else s1)
      in if token_count s2 = 0 \<or> jobserver_closed s2 then (Returns s2, w)
         else
           (case syscall (Sys_write (wfd s2) (CHR ''+'')) w of (ret, w1) \<Rightarrow>
              if ret \<noteq> 1 then
                (Exits, diag (Fatal ''failed to write to jobserver: %d: %s''
                                [Num (wfd s2), Strerror (errno w1)]) w1)
              else (Returns s2, w1)))"

text \<open>
  \<^verbatim>\<open>while (token_count_) Release();\<close> Every \<^verbatim>\<open>Release\<close> that returns moves a non-zero
  count towards zero, which is the termination argument.
\<close>

lemma Release_decreases:
  "Release s w = (Returns s', w') \<Longrightarrow> token_count s \<noteq> 0 \<Longrightarrow>
   nat \<bar>token_count s'\<bar> < nat \<bar>token_count s\<bar>"
  by (auto simp: Release_def Let_def split: if_splits prod.splits)

function Clear :: "jobserver \<Rightarrow> world \<Rightarrow> jobserver result \<times> world" where
  "Clear s w =
     (if token_count s \<noteq> 0 then
        (case Release s w of
           (Returns s', w') \<Rightarrow> Clear s' w'
         | (Exits, w') \<Rightarrow> (Exits, w')
         | (Undefined, w') \<Rightarrow> (Undefined, w'))
      else (Returns s, w))"
  by pat_completeness auto
termination
proof (relation "measure (\<lambda>(s, w). nat \<bar>token_count s\<bar>)", goal_cases)
  case 1
  show ?case by simp
next
  case (2 s w r w' s')
  then have "Release s w = (Returns s', w')" by simp
  from Release_decreases [OF this \<open>token_count s \<noteq> 0\<close>]
  show ?case by simp
qed

declare Clear.simps [simp del]

text \<open>
  The number of times the loop of \<^verbatim>\<open>Clear\<close> calls \<^verbatim>\<open>Release\<close>: the same recursion,
  counting the calls (a call that ends the process counts).
\<close>

function Clear_calls :: "jobserver \<Rightarrow> world \<Rightarrow> nat" where
  "Clear_calls s w =
     (if token_count s \<noteq> 0 then
        (case Release s w of
           (Returns s', w') \<Rightarrow> Suc (Clear_calls s' w')
         | (Exits, w') \<Rightarrow> 1
         | (Undefined, w') \<Rightarrow> 1)
      else 0)"
  by pat_completeness auto
termination
proof (relation "measure (\<lambda>(s, w). nat \<bar>token_count s\<bar>)", goal_cases)
  case 1
  show ?case by simp
next
  case (2 s w r w' s')
  then have "Release s w = (Returns s', w')" by simp
  from Release_decreases [OF this \<open>token_count s \<noteq> 0\<close>]
  show ?case by simp
qed

declare Clear_calls.simps [simp del]

subsection \<open>Sequencing\<close>

text \<open>Run \<open>m\<close>; if it returns, go on with \<open>f\<close>; if the process has exited, stop.\<close>

definition and_then ::
  "'a result \<times> world \<Rightarrow> ('a \<Rightarrow> world \<Rightarrow> 'b result \<times> world) \<Rightarrow> 'b result \<times> world" where
  "and_then m f =
     (case m of
        (Returns a, w) \<Rightarrow> f a w
      | (Exits, w) \<Rightarrow> (Exits, w)
      | (Undefined, w) \<Rightarrow> (Undefined, w))"

subsection \<open>The constructor: reading \<^verbatim>\<open>MAKEFLAGS\<close>\<close>

definition AUTH_KEY :: string where
  "AUTH_KEY = ''--jobserver-auth=''"

definition FDS_KEY :: string where
  "FDS_KEY = ''--jobserver-fds=''"

definition FIFO_KEY :: string where
  "FIFO_KEY = ''fifo:''"

text \<open>
  The character classes of \<^verbatim>\<open><ctype.h>\<close> in the C locale, and the \<^verbatim>\<open>%d\<close> directive of
  \<^verbatim>\<open>sscanf\<close>, are the C library's (ISO C 7.4 and 7.21.6.2); the repository only
  calls them.
\<close>

definition isblank :: "char \<Rightarrow> bool" where
  "isblank c \<longleftrightarrow> c = CHR '' '' \<or> c = CHR 0x09"

definition isspace :: "char \<Rightarrow> bool" where
  "isspace c \<longleftrightarrow> c = CHR '' '' \<or> c = CHR 0x09 \<or> c = CHR 0x0A \<or> c = CHR 0x0B
     \<or> c = CHR 0x0C \<or> c = CHR 0x0D"

definition isdigit :: "char \<Rightarrow> bool" where
  "isdigit c \<longleftrightarrow> 48 \<le> (of_char c :: nat) \<and> (of_char c :: nat) \<le> 57"

definition digit_value :: "char \<Rightarrow> int" where
  "digit_value c = int (of_char c) - 48"

definition decimal :: "string \<Rightarrow> int" where
  "decimal ds = foldl (\<lambda>a c. 10 * a + digit_value c) 0 ds"

text \<open>
  One \<^verbatim>\<open>%d\<close>: skip white space, take an optional sign and the longest run of digits.
  \<open>Input_failure\<close>: the input ended before the number. \<open>Matching_failure\<close>: no digit
  where one must be. \<open>Out_of_range\<close>: the number does not fit an \<^verbatim>\<open>int\<close>, which the
  C standard leaves undefined. \<open>Converted v rest\<close>: the value and the unread input.
\<close>

datatype conversion = Input_failure | Matching_failure | Converted int string | Out_of_range

definition scan_d :: "string \<Rightarrow> conversion" where
  "scan_d inp =
     (case dropWhile isspace inp of
        [] \<Rightarrow> Input_failure
      | c # cs \<Rightarrow>
          (let neg = (c = CHR ''-'');
               body = (if c = CHR ''-'' \<or> c = CHR ''+'' then cs else c # cs);
               ds = takeWhile isdigit body
           in if ds = [] then Matching_failure
              else
                (let v = (if neg then - decimal ds else decimal ds)
                 in if INT_MIN \<le> v \<and> v \<le> INT_MAX then Converted v (dropWhile isdigit body)
                    else Out_of_range)))"

text \<open>
  \<^verbatim>\<open>sscanf(inp, "%d,%d", &a, &b)\<close>: \<open>Some (ret, a', b')\<close> is the return value (the
  number of assignments, or \<^verbatim>\<open>EOF = -1\<close> when the input ends before the first
  conversion) and the two variables afterwards; \<open>None\<close> is undefined behaviour.
\<close>

definition sscanf_d_d :: "string \<Rightarrow> int \<Rightarrow> int \<Rightarrow> (int \<times> int \<times> int) option" where
  "sscanf_d_d inp a b =
     (case scan_d inp of
        Input_failure \<Rightarrow> Some (- 1, a, b)
      | Matching_failure \<Rightarrow> Some (0, a, b)
      | Out_of_range \<Rightarrow> None
      | Converted x rest \<Rightarrow>
          (case rest of
             [] \<Rightarrow> Some (1, x, b)
           | c # rest' \<Rightarrow>
               if c \<noteq> CHR '','' then Some (1, x, b)
               else
                 (case scan_d rest' of
                    Converted y _ \<Rightarrow> Some (2, x, y)
                  | Out_of_range \<Rightarrow> None
                  | _ \<Rightarrow> Some (1, x, b))))"

text \<open>
  Lines 37-50: the words of \<^verbatim>\<open>makeflags\<close>. \<open>flag_char\<close> is the index, \<open>flags\<close> the
  vector built so far; the inner loop collects the characters up to the next blank.
\<close>

function tokenize :: "string \<Rightarrow> nat \<Rightarrow> string list \<Rightarrow> string list" where
  "tokenize makeflags flag_char flags =
     (if flag_char < length makeflags then
        (let flag = takeWhile (\<lambda>c. \<not> isblank c) (drop flag_char makeflags)
         in tokenize makeflags (flag_char + length flag + 1)
              (if flag \<noteq> [] then flags @ [flag] else flags))
      else flags)"
  by pat_completeness auto
termination
  by (relation "measure (\<lambda>(makeflags, flag_char, flags). length makeflags - flag_char)") auto

declare tokenize.simps [simp del]

text \<open>
  Lines 52-61: each loop overwrites \<open>flag\<close> at every word that starts with the key;
  the second loop runs only if \<open>flag\<close> is empty after the first.
\<close>

fun find_key :: "string \<Rightarrow> string list \<Rightarrow> string \<Rightarrow> string" where
  "find_key key [] flag = flag"
| "find_key key (f # flags) flag =
     find_key key flags (if prefix key f then drop (length key) f else flag)"

definition find_flag :: "string list \<Rightarrow> string" where
  "find_flag flags =
     (let flag = find_key AUTH_KEY flags []
      in if flag = [] then find_key FDS_KEY flags flag else flag)"

text \<open>Lines 80-96: open the fifo if there is one, then judge the two descriptors.\<close>

definition open_fifo :: "jobserver \<Rightarrow> world \<Rightarrow> jobserver \<times> world" where
  "open_fifo s w =
     (if jobserver_fifo s then
        (let path = drop (length FIFO_KEY) (jobserver_name s)
         in case syscall (Sys_open path O_RDONLY_NONBLOCK) w of (r, w1) \<Rightarrow>
            case syscall (Sys_open path O_WRONLY) (w1) of (v, w2) \<Rightarrow>
              (s\<lparr>rfd := r, wfd := v\<rparr>, w2))
      else (s, w))"

definition attach :: "jobserver \<Rightarrow> world \<Rightarrow> jobserver result \<times> world" where
  "attach s0 w0 =
     (case open_fifo s0 w0 of (s, w) \<Rightarrow>
        if rfd s \<ge> 0 \<and> wfd s \<ge> 0 then
          (Returns (s\<lparr>token_count := - 1\<rparr>),
           diag (Info ''using jobserver: %s'' [Str (jobserver_name s)]) w)
        else if rfd s = - 1 \<or> wfd s = - 1 then
          (Exits,
           diag (Fatal ''failed to open jobserver: %s: %s''
                   [Str (jobserver_name s),
                    if errno w \<noteq> 0 then Strerror (errno w)
                    else Str ''No such file or directory'']) w)
        else (Returns (s\<lparr>jobserver_closed := True, token_count := - 1\<rparr>), w))"

text \<open>
  The constructor. \<open>env\<close> is the result of \<^verbatim>\<open>getenv("MAKEFLAGS")\<close>, \<open>None\<close> for the
  null pointer. The object starts from the default initialisers, for which the
  assertion of line 26 holds.
\<close>

definition Jobserver :: "string option \<Rightarrow> world \<Rightarrow> jobserver result \<times> world" where
  "Jobserver env w =
     (case env of
        None \<Rightarrow> (Returns initial, w)
      | Some makeflags \<Rightarrow>
          if length makeflags = 0 then (Returns initial, w)
          else
            (let flag = find_flag (tokenize makeflags 0 [])
             in if flag = [] then (Returns initial, w)
                else
                  (let s = initial\<lparr>jobserver_name := flag\<rparr>;
                       s = (if prefix FIFO_KEY (jobserver_name s)
                            then s\<lparr>jobserver_fifo := True\<rparr> else s)
                   in if jobserver_fifo s then attach s w
                      else
                        (case sscanf_d_d (jobserver_name s) (rfd s) (wfd s) of
                           None \<Rightarrow> (Undefined, w)
                         | Some (n, r, v) \<Rightarrow>
                             if n \<noteq> 2 then
                               (Returns (s\<lparr>rfd := r, wfd := v\<rparr>),
                                diag (Warning (''invalid jobserver value: '%s'' @ [CHR 0x27])
                                        [Str (jobserver_name s)]) w)
                             else attach (s\<lparr>rfd := r, wfd := v\<rparr>) w))))"

text \<open>The destructor: \<^verbatim>\<open>Clear\<close>, then close what looks open, then forget both.\<close>

definition close_if_open :: "int \<Rightarrow> world \<Rightarrow> world" where
  "close_if_open fd w = (if fd \<ge> 0 then snd (syscall (Sys_close fd) w) else w)"

definition Jobserver_destroy :: "jobserver \<Rightarrow> world \<Rightarrow> jobserver result \<times> world" where
  "Jobserver_destroy s w =
     and_then (Clear s w)
       (\<lambda>s1 w1. (Returns (s1\<lparr>rfd := - 1, wfd := - 1\<rparr>),
                 close_if_open (wfd s1) (close_if_open (rfd s1) w1)))"

subsection \<open>The scheduler: sequences of calls\<close>

text \<open>
  The scheduler calls the three methods in some order. \<open>run\<close> performs a list of
  calls and collects what each \<open>Acquire\<close> returned; \<open>Release_times n\<close> is \<open>n\<close> calls
  of \<open>Release\<close> in a row.
\<close>

datatype call = Call_Acquire | Call_Release | Call_Clear

fun run :: "call list \<Rightarrow> jobserver \<Rightarrow> world \<Rightarrow> (bool list \<times> jobserver) result \<times> world" where
  "run [] s w = (Returns ([], s), w)"
| "run (Call_Acquire # cs) s w =
     and_then (Acquire s w) (\<lambda>(b, s1) w1.
       and_then (run cs s1 w1) (\<lambda>(bs, s2) w2. (Returns (b # bs, s2), w2)))"
| "run (Call_Release # cs) s w = and_then (Release s w) (run cs)"
| "run (Call_Clear # cs) s w = and_then (Clear s w) (run cs)"

fun Release_times :: "nat \<Rightarrow> jobserver \<Rightarrow> world \<Rightarrow> jobserver result \<times> world" where
  "Release_times 0 s w = (Returns s, w)"
| "Release_times (Suc n) s w = and_then (Release s w) (Release_times n)"

text \<open>The events of one kind in a trace.\<close>

fun is_read :: "event \<Rightarrow> bool" where
  "is_read (Sys_read fd) = True"
| "is_read e = False"

fun is_write :: "event \<Rightarrow> bool" where
  "is_write (Sys_write fd c) = True"
| "is_write e = False"

text \<open>
  The value of the jobserver flag that the constructor finds: empty when the
  variable is unset or names no jobserver, or when the value found is empty.
\<close>

definition jobserver_flag :: "string option \<Rightarrow> string" where
  "jobserver_flag env =
     (case env of None \<Rightarrow> [] | Some makeflags \<Rightarrow> find_flag (tokenize makeflags 0 []))"

text \<open>
  A scheduler that holds at most one token: no \<open>Acquire\<close> while the token of an
  earlier \<open>Acquire\<close> has not been given back by \<open>Release\<close> or \<open>Clear\<close>. \<open>held\<close>
  says whether a token is held before the calls.
\<close>

fun one_at_a_time :: "bool \<Rightarrow> call list \<Rightarrow> bool" where
  "one_at_a_time held [] = True"
| "one_at_a_time held (Call_Acquire # cs) = (\<not> held \<and> one_at_a_time True cs)"
| "one_at_a_time held (Call_Release # cs) = one_at_a_time False cs"
| "one_at_a_time held (Call_Clear # cs) = one_at_a_time False cs"

subsection \<open>Words for the flag's value\<close>

text \<open>
  The value that the last word starting with \<open>key\<close> carries, if there is such a
  word.
\<close>

definition last_value :: "string \<Rightarrow> string list \<Rightarrow> string option" where
  "last_value key flags =
     (case filter (prefix key) flags of
        [] \<Rightarrow> None
      | m # ms \<Rightarrow> Some (drop (length key) (last (m # ms))))"

text \<open>
  A value that starts with two integers: optional white space, an optionally signed
  run of digits, a comma, optional white space, an optionally signed run of digits,
  and then anything that does not go on with a digit. Both numbers fit an \<^verbatim>\<open>int\<close>.
\<close>

definition in_int_range :: "int \<Rightarrow> bool" where
  "in_int_range x \<longleftrightarrow> INT_MIN \<le> x \<and> x \<le> INT_MAX"

definition signed_decimal :: "string \<Rightarrow> bool" where
  "signed_decimal l \<longleftrightarrow>
     (case l of
        [] \<Rightarrow> False
      | c # cs \<Rightarrow>
          if c = CHR ''-'' \<or> c = CHR ''+'' then cs \<noteq> [] \<and> list_all isdigit cs
          else list_all isdigit (c # cs))"

definition signed_value :: "string \<Rightarrow> int" where
  "signed_value l =
     (case l of
        [] \<Rightarrow> 0
      | c # cs \<Rightarrow>
          if c = CHR ''-'' then - decimal cs
          else if c = CHR ''+'' then decimal cs
          else decimal (c # cs))"

definition two_integers :: "string \<Rightarrow> int \<Rightarrow> int \<Rightarrow> bool" where
  "two_integers v x y \<longleftrightarrow>
     (\<exists>ws1 l1 ws2 l2 rest.
        v = ws1 @ l1 @ '','' @ ws2 @ l2 @ rest \<and>
        list_all isspace ws1 \<and> signed_decimal l1 \<and> signed_value l1 = x \<and> in_int_range x \<and>
        list_all isspace ws2 \<and> signed_decimal l2 \<and> signed_value l2 = y \<and> in_int_range y \<and>
        (rest = [] \<or> \<not> isdigit (hd rest)))"

subsection \<open>Concrete worlds and objects\<close>

text \<open>
  A process that has made no system call yet, on a platform where both would-block
  constants are 11 (Linux), and whose \<open>k\<close>-th system call will answer \<open>f k\<close>.
\<close>

definition fresh_world :: "(nat \<Rightarrow> sysret) \<Rightarrow> world" where
  "fresh_world f =
     \<lparr>answers = f, calls = 0, errno = 0, EAGAIN = 11, EWOULDBLOCK = 11, trace = []\<rparr>"

text \<open>
  Two such worlds: one where every system call fails with \<^verbatim>\<open>errno = 9\<close> (\<^verbatim>\<open>EBADF\<close>
  on Linux), and one where every system call answers 1 (each read and each write
  transfers its byte).
\<close>

definition failing_world :: world where
  "failing_world = fresh_world (\<lambda>k. Err 9)"

definition granting_world :: world where
  "granting_world = fresh_world (\<lambda>k. Ok 1)"

text \<open>The object that \<^verbatim>\<open>MAKEFLAGS=--jobserver-auth=3,4\<close> constructs.\<close>

definition pipe_3_4 :: jobserver where
  "pipe_3_4 = \<lparr>token_count = - 1, jobserver_name = ''3,4'', jobserver_closed = False,
                jobserver_fifo = False, rfd = 3, wfd = 4\<rparr>"

text \<open>The object that \<^verbatim>\<open>MAKEFLAGS=--jobserver-auth=3,-2\<close> constructs.\<close>

definition pipe_3_closed :: jobserver where
  "pipe_3_closed = \<lparr>token_count = - 1, jobserver_name = ''3,-2'', jobserver_closed = True,
                     jobserver_fifo = False, rfd = 3, wfd = - 2\<rparr>"

text \<open>The objects that the values \<^verbatim>\<open>3,4abc\<close> and \<^verbatim>\<open>7abc\<close> construct.\<close>

definition pipe_3_4abc :: jobserver where
  "pipe_3_4abc = \<lparr>token_count = - 1, jobserver_name = ''3,4abc'', jobserver_closed = False,
                   jobserver_fifo = False, rfd = 3, wfd = 4\<rparr>"

definition stray_7 :: jobserver where
  "stray_7 = \<lparr>token_count = 0, jobserver_name = ''7abc'', jobserver_closed = False,
               jobserver_fifo = False, rfd = 7, wfd = - 1\<rparr>"

section \<open>Properties\<close>

subsection \<open>Evaluation\<close>

lemmas eval_defs =
  Jobserver_def find_flag_def AUTH_KEY_def FDS_KEY_def FIFO_KEY_def initial_def
  sscanf_d_d_def scan_d_def isspace_def isdigit_def isblank_def decimal_def digit_value_def
  INT_MAX_def INT_MIN_def attach_def open_fifo_def Let_def tokenize.simps
  syscall_def diag_def fresh_world_def

lemma Jobserver_pipe_3_4:
  "Jobserver (Some ''--jobserver-auth=3,4'') (fresh_world f) =
     (Returns pipe_3_4, diag (Info ''using jobserver: %s'' [Str ''3,4'']) (fresh_world f))"
  by (simp add: eval_defs pipe_3_4_def)

lemma Jobserver_pipe_3_closed:
  "Jobserver (Some ''--jobserver-auth=3,-2'') (fresh_world f) =
     (Returns pipe_3_closed, fresh_world f)"
  by (simp add: eval_defs pipe_3_closed_def)

lemmas run_defs =
  and_then_def Acquire_def Acquire_tail_def Release_def Let_def syscall_def diag_def
  INT_MAX_def Clear.simps Clear_calls.simps

lemma flag_3_m2: "jobserver_flag (Some ''--jobserver-auth=3,-2'') = ''3,-2''"
  by (simp add: jobserver_flag_def eval_defs)

lemma flag_3_m1: "jobserver_flag (Some ''--jobserver-auth=3,-1'') = ''3,-1''"
  by (simp add: jobserver_flag_def eval_defs)

lemma flag_3_4abc: "jobserver_flag (Some ''--jobserver-auth=3,4abc'') = ''3,4abc''"
  by (simp add: jobserver_flag_def eval_defs)

lemma flag_7abc: "jobserver_flag (Some ''--jobserver-auth=7abc'') = ''7abc''"
  by (simp add: jobserver_flag_def eval_defs)

lemma Clear_nothing_held: "token_count s = 0 \<Longrightarrow> Clear s w = (Returns s, w)"
  by (simp add: Clear.simps)

subsection \<open>The implicit token\<close>

lemma Jobserver_token_count:
  "Jobserver env w = (Returns s, w') \<Longrightarrow> token_count s = 0 \<or> token_count s = - 1"
  by (auto simp: Jobserver_def attach_def initial_def Let_def
           split: option.splits if_splits prod.splits)

text \<open>
  C1. In every state with \<open>token_count \<le> 0\<close> or \<open>jobserver_closed\<close>, \<open>Acquire\<close>
  sets the count to 1 and returns true, and the world is unchanged: no system call
  (so no read of the channel) and no diagnostic. In particular the first \<open>Acquire\<close>
  on an object that the constructor has returned succeeds in every world \<open>w\<close>,
  whatever its system calls would answer.
\<close>

theorem Acquire_fast_path:
  "(token_count s \<le> 0 \<or> jobserver_closed s \<longrightarrow>
      Acquire s w = (Returns (True, s\<lparr>token_count := 1\<rparr>), w)) \<and>
   (Jobserver env w0 = (Returns s, w1) \<longrightarrow>
      Acquire s w = (Returns (True, s\<lparr>token_count := 1\<rparr>), w))"
proof -
  have fast: "Acquire s w = (Returns (True, s\<lparr>token_count := 1\<rparr>), w)"
    if "token_count s \<le> 0 \<or> jobserver_closed s"
    using that by (simp add: Acquire_def)
  moreover have "token_count s \<le> 0" if "Jobserver env w0 = (Returns s, w1)"
    using Jobserver_token_count [OF that] by auto
  ultimately show ?thesis by blast
qed

theorem Acquire_fast_path_witness:
  "token_count pipe_3_4 \<le> 0 \<and>
   Jobserver (Some ''--jobserver-auth=3,4'') (fresh_world (\<lambda>k. Err 11)) =
     (Returns pipe_3_4,
      diag (Info ''using jobserver: %s'' [Str ''3,4'']) (fresh_world (\<lambda>k. Err 11))) \<and>
   Acquire pipe_3_4 (fresh_world (\<lambda>k. Err 11)) =
     (Returns (True, pipe_3_4\<lparr>token_count := 1\<rparr>), fresh_world (\<lambda>k. Err 11))"
  using Acquire_fast_path [of pipe_3_4 "fresh_world (\<lambda>k. Err 11)"
      "Some ''--jobserver-auth=3,4''" "fresh_world (\<lambda>k. Err 11)"
      "diag (Info ''using jobserver: %s'' [Str ''3,4'']) (fresh_world (\<lambda>k. Err 11))"]
    Jobserver_pipe_3_4 [of "\<lambda>k. Err 11"]
  by (simp add: pipe_3_4_def)

text \<open>
  C7. \<open>Release\<close> on a negative count (the state \<open>-1\<close> that the constructor leaves)
  sets the count to exactly 0 and leaves the world unchanged: no write, no other
  system call, no diagnostic.
\<close>

theorem Release_implicit_token:
  assumes "token_count s < 0"
  shows "Release s w = (Returns (s\<lparr>token_count := 0\<rparr>), w)"
  using assms by (simp add: Release_def)

theorem Release_implicit_token_witness:
  "token_count pipe_3_4 < 0 \<and>
   Release pipe_3_4 (fresh_world (\<lambda>k. Ok 1)) =
     (Returns (pipe_3_4\<lparr>token_count := 0\<rparr>), fresh_world (\<lambda>k. Ok 1))"
  using Release_implicit_token [of pipe_3_4 "fresh_world (\<lambda>k. Ok 1)"]
  by (simp add: pipe_3_4_def)

subsection \<open>A read of zero bytes\<close>

lemma Acquire_eof:
  assumes "0 < token_count s" "\<not> jobserver_closed s" "answers w (calls w) = Ok 0"
  shows "Acquire s w =
           (Returns (False, s), w\<lparr>calls := calls w + 1, trace := trace w @ [Sys_read (rfd s)]\<rparr>)"
  using assms by (simp add: Acquire_def Acquire_tail_def syscall_def)

lemma Acquire_eof_run:
  assumes "0 < token_count s" "\<not> jobserver_closed s"
    and "\<forall>k<n. answers w (calls w + k) = Ok 0"
  shows "run (replicate n Call_Acquire) s w =
           (Returns (replicate n False, s),
            w\<lparr>calls := calls w + n,
              trace := trace w @ replicate n (Sys_read (rfd s))\<rparr>)"
  using assms(3)
proof (induction n arbitrary: w)
  case 0
  show ?case by simp
next
  case (Suc n)
  let ?w1 = "w\<lparr>calls := calls w + 1, trace := trace w @ [Sys_read (rfd s)]\<rparr>"
  from Suc.prems have "answers w (calls w) = Ok 0" by force
  with assms(1,2) have step: "Acquire s w = (Returns (False, s), ?w1)"
    by (rule Acquire_eof)
  have "\<forall>k<n. answers ?w1 (calls ?w1 + k) = Ok 0"
    using Suc.prems by (auto simp: less_Suc_eq_0_disj)
  from Suc.IH [OF this] show ?case
    by (simp add: step and_then_def)
qed

text \<open>
  C9. When a token is held, the channel is not marked closed and the read returns
  zero bytes, \<open>Acquire\<close> returns false with the object unchanged (so
  \<open>jobserver_closed\<close> stays false and the count stays), and the only event is the
  read itself: no diagnostic. Hence \<open>n\<close> such calls in a row, for any \<open>n\<close>, all
  return false and leave the object as it was.
\<close>

theorem Acquire_end_of_file:
  assumes "0 < token_count s" and "\<not> jobserver_closed s"
  shows "(answers w (calls w) = Ok 0 \<longrightarrow>
            Acquire s w =
              (Returns (False, s),
               w\<lparr>calls := calls w + 1, trace := trace w @ [Sys_read (rfd s)]\<rparr>)) \<and>
         ((\<forall>k<n. answers w (calls w + k) = Ok 0) \<longrightarrow>
            run (replicate n Call_Acquire) s w =
              (Returns (replicate n False, s),
               w\<lparr>calls := calls w + n,
                 trace := trace w @ replicate n (Sys_read (rfd s))\<rparr>))"
  using Acquire_eof [OF assms] Acquire_eof_run [OF assms] by blast

theorem Acquire_end_of_file_witness:
  "0 < token_count (pipe_3_4\<lparr>token_count := 2\<rparr>) \<and>
   \<not> jobserver_closed (pipe_3_4\<lparr>token_count := 2\<rparr>) \<and>
   answers (fresh_world (\<lambda>k. Ok 0)) 0 = Ok 0 \<and>
   answers (fresh_world (\<lambda>k. Ok 0)) 1 = Ok 0 \<and>
   answers (fresh_world (\<lambda>k. Ok 0)) 2 = Ok 0 \<and>
   Acquire (pipe_3_4\<lparr>token_count := 2\<rparr>) (fresh_world (\<lambda>k. Ok 0)) =
     (Returns (False, pipe_3_4\<lparr>token_count := 2\<rparr>),
      (fresh_world (\<lambda>k. Ok 0))\<lparr>calls := 1, trace := [Sys_read 3]\<rparr>) \<and>
   run [Call_Acquire, Call_Acquire, Call_Acquire] (pipe_3_4\<lparr>token_count := 2\<rparr>)
       (fresh_world (\<lambda>k. Ok 0)) =
     (Returns ([False, False, False], pipe_3_4\<lparr>token_count := 2\<rparr>),
      (fresh_world (\<lambda>k. Ok 0))\<lparr>calls := 3, trace := [Sys_read 3, Sys_read 3, Sys_read 3]\<rparr>)"
  using Acquire_end_of_file [of "pipe_3_4\<lparr>token_count := 2\<rparr>" "fresh_world (\<lambda>k. Ok 0)" 3]
  by (simp add: pipe_3_4_def fresh_world_def numeral_3_eq_3 del: run.simps)

subsection \<open>A closed channel\<close>

lemma Release_closed:
  assumes "jobserver_closed s"
  shows "\<exists>s'. Release s w = (Returns s', w) \<and> jobserver_closed s'"
  using assms by (simp add: Release_def Let_def)

lemma Clear_closed:
  "jobserver_closed s \<Longrightarrow> \<exists>s'. Clear s w = (Returns s', w) \<and> jobserver_closed s' \<and> token_count s' = 0"
proof (induction s w rule: Clear.induct)
  case (1 s w)
  show ?case
  proof (cases "token_count s = 0")
    case True
    with 1 show ?thesis by (simp add: Clear.simps)
  next
    case False
    from Release_closed [OF "1.prems"] obtain s1
      where r: "Release s w = (Returns s1, w)" and c: "jobserver_closed s1" by blast
    from "1.IH" [OF False r [symmetric] refl c] False r show ?thesis
      by (simp add: Clear.simps [of s w])
  qed
qed

lemma run_closed:
  "jobserver_closed s \<Longrightarrow>
   \<exists>s'. run cs s w = (Returns (replicate (count_list cs Call_Acquire) True, s'), w) \<and>
        jobserver_closed s'"
proof (induction cs arbitrary: s)
  case Nil
  then show ?case by simp
next
  case (Cons c cs)
  show ?case
  proof (cases c)
    case Call_Acquire
    have a: "Acquire s w = (Returns (True, s\<lparr>token_count := 1\<rparr>), w)"
      using Cons.prems by (simp add: Acquire_def)
    from Cons.IH [of "s\<lparr>token_count := 1\<rparr>"] Cons.prems obtain s'
      where "run cs (s\<lparr>token_count := 1\<rparr>) w =
               (Returns (replicate (count_list cs Call_Acquire) True, s'), w)"
        and "jobserver_closed s'" by auto
    with a Call_Acquire show ?thesis by (simp add: and_then_def)
  next
    case Call_Release
    from Release_closed [OF Cons.prems] obtain s1
      where r: "Release s w = (Returns s1, w)" and c: "jobserver_closed s1" by blast
    from Cons.IH [OF c] r Call_Release show ?thesis by (simp add: and_then_def)
  next
    case Call_Clear
    from Clear_closed [OF Cons.prems] obtain s1
      where r: "Clear s w = (Returns s1, w)" and c: "jobserver_closed s1" by blast
    from Cons.IH [OF c] r Call_Clear show ?thesis by (simp add: and_then_def)
  qed
qed

lemma destroy_closed:
  assumes "jobserver_closed s"
  shows "\<exists>s' w'. Jobserver_destroy s w = (Returns s', w') \<and> jobserver_closed s'
            \<and> filter is_read (trace w') = filter is_read (trace w)
            \<and> filter is_write (trace w') = filter is_write (trace w)"
proof -
  from Clear_closed [OF assms] obtain s1
    where r: "Clear s w = (Returns s1, w)" and c: "jobserver_closed s1" by blast
  then show ?thesis
    by (auto simp: Jobserver_destroy_def and_then_def close_if_open_def syscall_def Let_def
          split: sysret.splits)
qed

lemma Acquire_pipe_error:
  assumes "\<not> jobserver_fifo s" "0 < token_count s" "\<not> jobserver_closed s"
    and "answers w (calls w) = Err e" "e \<noteq> EAGAIN w" "e \<noteq> EWOULDBLOCK w"
  shows "Acquire s w =
           (Returns (False, s\<lparr>jobserver_closed := True\<rparr>),
            w\<lparr>calls := calls w + 1, errno := e,
               trace := trace w @
                 [Sys_read (rfd s),
                  Warning ''pipe closed: %d (mark the command as recursive)'' [Num (rfd s)]]\<rparr>)"
  using assms by (simp add: Acquire_def Acquire_tail_def syscall_def diag_def)


text \<open>
  C3. An anonymous pipe (\<open>jobserver_fifo\<close> false) with a token held and the channel
  not yet closed: when the read fails with an error that is neither \<open>EAGAIN\<close> nor
  \<open>EWOULDBLOCK\<close>, \<open>Acquire\<close> returns false, sets \<open>jobserver_closed\<close> and warns.
  From then on, for every sequence \<open>cs\<close> of \<open>Acquire\<close>, \<open>Release\<close> and \<open>Clear\<close>
  calls: every \<open>Acquire\<close> returns true, the world after the sequence is the world
  before it (no read, no other system call, no diagnostic), and \<open>jobserver_closed\<close>
  is still set; the destructor, run after any such sequence, returns with
  \<open>jobserver_closed\<close> still set and adds no read.
\<close>

theorem closed_channel_stays_closed:
  assumes "\<not> jobserver_fifo s" and "0 < token_count s" and "\<not> jobserver_closed s"
    and "answers w (calls w) = Err e" and "e \<noteq> EAGAIN w" and "e \<noteq> EWOULDBLOCK w"
  shows "let s1 = s\<lparr>jobserver_closed := True\<rparr>;
             w1 = w\<lparr>calls := calls w + 1, errno := e,
                    trace := trace w @
                      [Sys_read (rfd s),
                       Warning ''pipe closed: %d (mark the command as recursive)''
                         [Num (rfd s)]]\<rparr>
         in Acquire s w = (Returns (False, s1), w1) \<and>
            (\<forall>cs. \<exists>s2.
               run cs s1 w1 =
                 (Returns (replicate (count_list cs Call_Acquire) True, s2), w1) \<and>
               jobserver_closed s2 \<and>
               (\<exists>s3 w3. Jobserver_destroy s2 w1 = (Returns s3, w3) \<and>
                  jobserver_closed s3 \<and>
                  filter is_read (trace w3) = filter is_read (trace w1)))"
proof -
  let ?s1 = "s\<lparr>jobserver_closed := True\<rparr>"
  have closed: "jobserver_closed ?s1" by simp
  have later: "\<exists>s2. run cs ?s1 w1 =
                 (Returns (replicate (count_list cs Call_Acquire) True, s2), w1) \<and>
               jobserver_closed s2 \<and>
               (\<exists>s3 w3. Jobserver_destroy s2 w1 = (Returns s3, w3) \<and>
                  jobserver_closed s3 \<and>
                  filter is_read (trace w3) = filter is_read (trace w1))" for cs w1
  proof -
    from run_closed [OF closed, of cs w1] obtain s2
      where r: "run cs ?s1 w1 =
                  (Returns (replicate (count_list cs Call_Acquire) True, s2), w1)"
        and c: "jobserver_closed s2" by blast
    from destroy_closed [OF c, of w1] r c show ?thesis by blast
  qed
  from Acquire_pipe_error [OF assms] later show ?thesis
    unfolding Let_def by blast
qed

theorem closed_channel_stays_closed_witness:
  "\<not> jobserver_fifo (pipe_3_4\<lparr>token_count := 1\<rparr>) \<and>
   0 < token_count (pipe_3_4\<lparr>token_count := 1\<rparr>) \<and>
   \<not> jobserver_closed (pipe_3_4\<lparr>token_count := 1\<rparr>) \<and>
   answers (fresh_world (\<lambda>k. Err 9)) (calls (fresh_world (\<lambda>k. Err 9))) = Err 9 \<and>
   9 \<noteq> EAGAIN (fresh_world (\<lambda>k. Err 9)) \<and>
   9 \<noteq> EWOULDBLOCK (fresh_world (\<lambda>k. Err 9)) \<and>
   Acquire (pipe_3_4\<lparr>token_count := 1\<rparr>) (fresh_world (\<lambda>k. Err 9)) =
     (Returns (False, pipe_3_4\<lparr>token_count := 1, jobserver_closed := True\<rparr>),
      (fresh_world (\<lambda>k. Err 9))
        \<lparr>calls := 1, errno := 9,
         trace := [Sys_read 3,
                   Warning ''pipe closed: %d (mark the command as recursive)'' [Num 3]]\<rparr>) \<and>
   (\<exists>s2. run [Call_Acquire, Call_Acquire, Call_Release, Call_Acquire, Call_Clear]
            (pipe_3_4\<lparr>token_count := 1, jobserver_closed := True\<rparr>)
            ((fresh_world (\<lambda>k. Err 9))
               \<lparr>calls := 1, errno := 9,
                trace := [Sys_read 3,
                          Warning ''pipe closed: %d (mark the command as recursive)''
                            [Num 3]]\<rparr>) =
          (Returns ([True, True, True], s2),
           (fresh_world (\<lambda>k. Err 9))
             \<lparr>calls := 1, errno := 9,
              trace := [Sys_read 3,
                        Warning ''pipe closed: %d (mark the command as recursive)''
                          [Num 3]]\<rparr>) \<and>
          jobserver_closed s2)"
proof -
  let ?s = "pipe_3_4\<lparr>token_count := 1\<rparr>" and ?w = "fresh_world (\<lambda>k. Err 9)"
  have h: "\<not> jobserver_fifo ?s" "0 < token_count ?s" "\<not> jobserver_closed ?s"
    "answers ?w (calls ?w) = Err 9" "9 \<noteq> EAGAIN ?w" "9 \<noteq> EWOULDBLOCK ?w"
    by (simp_all add: pipe_3_4_def fresh_world_def)
  note t = closed_channel_stays_closed [OF h, unfolded Let_def]
  from t have a: "Acquire ?s ?w =
      (Returns (False, pipe_3_4\<lparr>token_count := 1, jobserver_closed := True\<rparr>),
       ?w\<lparr>calls := 1, errno := 9,
          trace := [Sys_read 3,
                    Warning ''pipe closed: %d (mark the command as recursive)'' [Num 3]]\<rparr>)"
    by (simp add: pipe_3_4_def fresh_world_def)
  from t [THEN conjunct2, THEN spec,
          of "[Call_Acquire, Call_Acquire, Call_Release, Call_Acquire, Call_Clear]"]
  have b: "\<exists>s2. run [Call_Acquire, Call_Acquire, Call_Release, Call_Acquire, Call_Clear]
            (pipe_3_4\<lparr>token_count := 1, jobserver_closed := True\<rparr>)
            (?w\<lparr>calls := 1, errno := 9,
                trace := [Sys_read 3,
                          Warning ''pipe closed: %d (mark the command as recursive)''
                            [Num 3]]\<rparr>) =
          (Returns ([True, True, True], s2),
           ?w\<lparr>calls := 1, errno := 9,
              trace := [Sys_read 3,
                        Warning ''pipe closed: %d (mark the command as recursive)''
                          [Num 3]]\<rparr>) \<and>
          jobserver_closed s2"
    by (simp add: pipe_3_4_def fresh_world_def numeral_3_eq_3 del: run.simps) blast
  from h a b show ?thesis by blast
qed

subsection \<open>A disabled client\<close>

lemma run_one_at_a_time:
  assumes "\<not> jobserver_closed s" and "token_count s = (if held then 1 else 0)"
    and "one_at_a_time held cs"
  shows "\<exists>s'. run cs s w = (Returns (replicate (count_list cs Call_Acquire) True, s'), w)"
  using assms
proof (induction held cs arbitrary: s rule: one_at_a_time.induct)
  case (1 held)
  show ?case by simp
next
  case (2 held cs)
  from "2.prems" have a: "Acquire s w = (Returns (True, s\<lparr>token_count := 1\<rparr>), w)"
    by (simp add: Acquire_def)
  from "2.IH" [of "s\<lparr>token_count := 1\<rparr>"] "2.prems" obtain s'
    where "run cs (s\<lparr>token_count := 1\<rparr>) w =
             (Returns (replicate (count_list cs Call_Acquire) True, s'), w)" by auto
  with a show ?case by (simp add: and_then_def)
next
  case (3 held cs)
  from "3.prems" have r: "Release s w = (Returns (s\<lparr>token_count := 0\<rparr>), w)"
    by (cases s) (auto simp: Release_def Let_def)
  from "3.IH" [of "s\<lparr>token_count := 0\<rparr>"] "3.prems" r show ?case
    by (simp add: and_then_def)
next
  case (4 held cs)
  from "4.prems" have r: "Release s w = (Returns (s\<lparr>token_count := 0\<rparr>), w)"
    by (cases s) (auto simp: Release_def Let_def)
  have z: "Clear (s\<lparr>token_count := 0\<rparr>) w = (Returns (s\<lparr>token_count := 0\<rparr>), w)"
    by (simp add: Clear.simps)
  have c: "Clear s w = (Returns (s\<lparr>token_count := 0\<rparr>), w)"
  proof (cases held)
    case True
    with "4.prems" r z show ?thesis by (simp add: Clear.simps [of s w])
  next
    case False
    with "4.prems" show ?thesis by (cases s) (simp add: Clear.simps)
  qed
  from "4.IH" [of "s\<lparr>token_count := 0\<rparr>"] "4.prems" c show ?case
    by (simp add: and_then_def)
qed

lemma Jobserver_disabled:
  "jobserver_flag env = [] \<Longrightarrow> Jobserver env w = (Returns initial, w)"
  by (cases env) (simp_all add: jobserver_flag_def Jobserver_def)

text \<open>
  C8, as the code has it. With no jobserver flag (or an empty value) the constructor
  returns the initial object and leaves the world alone; and every sequence of
  \<open>Acquire\<close>, \<open>Release\<close> and \<open>Clear\<close> calls that holds at most one token at a time
  returns, with every \<open>Acquire\<close> true and the world unchanged: no read, no write, no
  other system call, no diagnostic.
\<close>

theorem disabled_client_no_io:
  assumes "jobserver_flag env = []" and "one_at_a_time False cs"
  shows "Jobserver env w = (Returns initial, w) \<and>
         (\<exists>s'. run cs initial w' =
                  (Returns (replicate (count_list cs Call_Acquire) True, s'), w'))"
proof -
  have "\<not> jobserver_closed initial" "token_count initial = (if False then 1 else 0)"
    by (simp_all add: initial_def)
  from run_one_at_a_time [OF this assms(2)] Jobserver_disabled [OF assms(1)]
  show ?thesis by blast
qed

theorem disabled_client_no_io_witness:
  "jobserver_flag (Some ''-j4 -k'') = [] \<and>
   one_at_a_time False [Call_Acquire, Call_Release, Call_Acquire, Call_Clear, Call_Release] \<and>
   Jobserver (Some ''-j4 -k'') (fresh_world (\<lambda>k. Err 9)) =
     (Returns initial, fresh_world (\<lambda>k. Err 9)) \<and>
   (\<exists>s'. run [Call_Acquire, Call_Release, Call_Acquire, Call_Clear, Call_Release] initial
             (fresh_world (\<lambda>k. Err 9)) =
           (Returns ([True, True], s'), fresh_world (\<lambda>k. Err 9)))"
proof -
  have f: "jobserver_flag (Some ''-j4 -k'') = []"
    by (simp add: jobserver_flag_def eval_defs)
  have o: "one_at_a_time False
             [Call_Acquire, Call_Release, Call_Acquire, Call_Clear, Call_Release]"
    by simp
  from disabled_client_no_io [OF f o, of "fresh_world (\<lambda>k. Err 9)" "fresh_world (\<lambda>k. Err 9)"]
  have "Jobserver (Some ''-j4 -k'') (fresh_world (\<lambda>k. Err 9)) =
          (Returns initial, fresh_world (\<lambda>k. Err 9)) \<and>
        (\<exists>s'. run [Call_Acquire, Call_Release, Call_Acquire, Call_Clear, Call_Release] initial
             (fresh_world (\<lambda>k. Err 9)) =
           (Returns ([True, True], s'), fresh_world (\<lambda>k. Err 9)))"
    by (simp add: numeral_2_eq_2 del: run.simps)
  with f o show ?thesis by blast
qed


text \<open>
  C8 as stated fails: \<open>Acquire\<close> does not look at \<open>Enabled\<close>. On the disabled client
  a second \<open>Acquire\<close> without a \<open>Release\<close> in between finds \<open>token_count = 1\<close> and
  calls \<^verbatim>\<open>read\<close> on the descriptor \<open>-1\<close>.
\<close>

theorem disabled_client_second_Acquire_reads:
  "Jobserver None failing_world = (Returns initial, failing_world) \<and>
   run [Call_Acquire, Call_Acquire] initial failing_world =
     (Returns ([True, False], initial\<lparr>token_count := 1, jobserver_closed := True\<rparr>),
      failing_world
        \<lparr>calls := 1, errno := 9,
         trace := [Sys_read (- 1),
                   Warning ''pipe closed: %d (mark the command as recursive)'' [Num (- 1)]]\<rparr>)"
  by (simp add: Jobserver_def and_then_def Acquire_def Acquire_tail_def initial_def
        syscall_def diag_def fresh_world_def failing_world_def)

subsection \<open>Clear\<close>

lemma Clear_is_Release_times: "Clear s w = Release_times (Clear_calls s w) s w"
proof (induction s w rule: Clear.induct)
  case (1 s w)
  show ?case
  proof (cases "token_count s = 0")
    case True
    then show ?thesis by (simp add: Clear.simps Clear_calls.simps)
  next
    case False
    obtain r w' where rel: "Release s w = (r, w')" by (cases "Release s w")
    show ?thesis
    proof (cases r)
      case (Returns s')
      from "1.IH" [OF False rel [symmetric] Returns] False rel Returns show ?thesis
        by (simp add: Clear.simps [of s w] Clear_calls.simps [of s w] and_then_def)
    next
      case Exits
      with False rel show ?thesis
        by (simp add: Clear.simps [of s w] Clear_calls.simps [of s w] and_then_def)
    next
      case Undefined
      with False rel show ?thesis
        by (simp add: Clear.simps [of s w] Clear_calls.simps [of s w] and_then_def)
    qed
  qed
qed

lemma Clear_zero: "token_count s = 0 \<Longrightarrow> Clear s w = (Returns s, w) \<and> Clear_calls s w = 0"
  by (simp add: Clear.simps Clear_calls.simps)

lemma Release_last:
  assumes "token_count s = 1"
  shows "Release s w = (Returns (s\<lparr>token_count := 0\<rparr>), w)"
  using assms by (simp add: Release_def Let_def)

lemma Release_write:
  assumes "token_count s = int (Suc (Suc m))" and "\<not> jobserver_closed s"
    and "answers w (calls w) = Ok 1"
  shows "Release s w =
           (Returns (s\<lparr>token_count := int (Suc m)\<rparr>),
            w\<lparr>calls := calls w + 1, trace := trace w @ [Sys_write (wfd s) (CHR ''+'')]\<rparr>)"
  using assms by (simp add: Release_def Let_def syscall_def)

lemma Clear_open:
  assumes "\<not> jobserver_closed s"
  shows "token_count s = int (Suc m) \<Longrightarrow> \<forall>k<m. answers w (calls w + k) = Ok 1 \<Longrightarrow>
         Clear s w =
           (Returns (s\<lparr>token_count := 0\<rparr>),
            w\<lparr>calls := calls w + m,
              trace := trace w @ replicate m (Sys_write (wfd s) (CHR ''+''))\<rparr>) \<and>
         Clear_calls s w = Suc m"
  using assms
proof (induction m arbitrary: s w)
  case 0
  then have r: "Release s w = (Returns (s\<lparr>token_count := 0\<rparr>), w)"
    by (simp add: Release_last)
  from 0 have nz: "token_count s \<noteq> 0" by simp
  from r nz Clear_zero [of "s\<lparr>token_count := 0\<rparr>" w] show ?case
    by (simp add: Clear.simps [of s w] Clear_calls.simps [of s w])
next
  case (Suc m)
  let ?s1 = "s\<lparr>token_count := int (Suc m)\<rparr>"
  let ?w1 = "w\<lparr>calls := calls w + 1, trace := trace w @ [Sys_write (wfd s) (CHR ''+'')]\<rparr>"
  from Suc.prems have "answers w (calls w) = Ok 1" by force
  with Suc.prems have r: "Release s w = (Returns ?s1, ?w1)"
    by (simp add: Release_write)
  from Suc.prems have nz: "token_count s \<noteq> 0" by simp
  have "\<forall>k<m. answers ?w1 (calls ?w1 + k) = Ok 1"
    using Suc.prems by (auto simp: less_Suc_eq_0_disj)
  from Suc.IH [of ?s1 ?w1, OF _ this] Suc.prems(3) r nz show ?case
    by (simp add: Clear.simps [of s w] Clear_calls.simps [of s w])
qed

lemma Acquire_cases:
  assumes "0 < token_count s" and "\<not> jobserver_closed s"
    and "Acquire s w = (Returns (b, s'), w')"
  shows "(b \<and> s' = s\<lparr>token_count := token_count s + 1\<rparr>) \<or> (\<not> b \<and> s' = s) \<or>
         (\<not> b \<and> s' = s\<lparr>jobserver_closed := True\<rparr>)"
  using assms
  by (auto simp: Acquire_def Acquire_tail_def Let_def split: prod.splits if_splits)


lemma and_then_Returns:
  "and_then m f = (Returns x, w) \<Longrightarrow> \<exists>a w'. m = (Returns a, w') \<and> f a w' = (Returns x, w)"
  by (auto simp: and_then_def split: prod.splits result.splits)

lemma run_Acquire_Returns:
  assumes "run (Call_Acquire # cs) s w = (Returns (bs, s1), w1)"
  shows "\<exists>b s' w' bs'. Acquire s w = (Returns (b, s'), w') \<and>
           run cs s' w' = (Returns (bs', s1), w1) \<and> bs = b # bs'"
  using assms by (auto simp: and_then_def split: prod.splits result.splits)

lemma acquires_count:
  "run (replicate M Call_Acquire) s w = (Returns (bs, s1), w1) \<Longrightarrow>
   \<not> jobserver_closed s1 \<Longrightarrow> 0 < token_count s \<Longrightarrow>
   token_count s1 = token_count s + int (count_list bs True) \<and> wfd s1 = wfd s"
proof (induction M arbitrary: s w bs)
  case 0
  then show ?case by simp
next
  case (Suc M)
  from run_Acquire_Returns [OF Suc.prems(1) [unfolded replicate_Suc]] obtain b s' w' bs'
    where a: "Acquire s w = (Returns (b, s'), w')"
      and r: "run (replicate M Call_Acquire) s' w' = (Returns (bs', s1), w1)"
      and bs: "bs = b # bs'"
    by blast
  have open': "\<not> jobserver_closed s'"
  proof
    assume "jobserver_closed s'"
    from run_closed [OF this, of "replicate M Call_Acquire" w'] r Suc.prems(2)
    show False by auto
  qed
  have open0: "\<not> jobserver_closed s"
  proof
    assume "jobserver_closed s"
    with a have "jobserver_closed s'" by (auto simp: Acquire_def)
    with open' show False by simp
  qed
  from Acquire_cases [OF Suc.prems(3) open0 a] open'
  consider "b" "s' = s\<lparr>token_count := token_count s + 1\<rparr>" | "\<not> b" "s' = s" by auto
  then show ?case
  proof cases
    case 1
    with Suc.IH [OF r Suc.prems(2)] Suc.prems(3) bs show ?thesis by simp
  next
    case 2
    with Suc.IH [OF r Suc.prems(2)] Suc.prems(3) bs show ?thesis by simp
  qed
qed

lemma acquires_count_fresh:
  assumes "run (replicate M Call_Acquire) s w = (Returns (bs, s1), w1)"
    and "\<not> jobserver_closed s1" and "token_count s \<le> 0" and "0 < M"
  shows "token_count s1 = int (count_list bs True) \<and> wfd s1 = wfd s \<and> 0 < count_list bs True"
proof -
  from assms(4) obtain M' where M: "M = Suc M'" by (cases M) auto
  have a: "Acquire s w = (Returns (True, s\<lparr>token_count := 1\<rparr>), w)"
    using assms(3) by (simp add: Acquire_def)
  from run_Acquire_Returns [OF assms(1) [unfolded M replicate_Suc]] a obtain bs'
    where r: "run (replicate M' Call_Acquire) (s\<lparr>token_count := 1\<rparr>) w = (Returns (bs', s1), w1)"
      and bs: "bs = True # bs'"
    by auto
  from acquires_count [OF r assms(2)] bs show ?thesis by simp
qed

lemma closed_Acquires_hold_one:
  assumes "jobserver_closed s" and "0 < M"
  shows "run (replicate M Call_Acquire) s w =
           (Returns (replicate M True, s\<lparr>token_count := 1\<rparr>), w) \<and>
         Clear_calls (s\<lparr>token_count := 1\<rparr>) w = 1 \<and>
         Clear (s\<lparr>token_count := 1\<rparr>) w = (Returns (s\<lparr>token_count := 0\<rparr>), w)"
proof -
  have a: "Acquire s' w = (Returns (True, s'\<lparr>token_count := 1\<rparr>), w)"
    if "jobserver_closed s'" for s'
    using that by (simp add: Acquire_def)
  have r: "run (replicate (Suc m) Call_Acquire) s' w =
             (Returns (replicate (Suc m) True, s'\<lparr>token_count := 1\<rparr>), w)"
    if "jobserver_closed s'" for m s'
    using that
  proof (induction m arbitrary: s')
    case 0
    then show ?case by (simp add: a and_then_def)
  next
    case (Suc m)
    from Suc.IH [of "s'\<lparr>token_count := 1\<rparr>"] Suc.prems
    have ih: "run (replicate (Suc m) Call_Acquire) (s'\<lparr>token_count := 1\<rparr>) w =
            (Returns (replicate (Suc m) True, s'\<lparr>token_count := 1\<rparr>), w)" by simp
    have e: "replicate (Suc (Suc m)) Call_Acquire = Call_Acquire # replicate (Suc m) Call_Acquire"
      "replicate (Suc (Suc m)) True = True # replicate (Suc m) True" by simp_all
    show ?case
      unfolding e by (simp add: a [OF Suc.prems] ih and_then_def del: replicate_Suc)
  qed
  from assms(2) obtain m where M: "M = Suc m" by (cases M) auto
  have rel: "Release (s\<lparr>token_count := 1\<rparr>) w = (Returns (s\<lparr>token_count := 0\<rparr>), w)"
    by (simp add: Release_def Let_def)
  have c: "Clear (s\<lparr>token_count := 1\<rparr>) w = (Returns (s\<lparr>token_count := 0\<rparr>), w)"
    using rel Clear_zero [of "s\<lparr>token_count := 0\<rparr>" w]
    by (simp add: Clear.simps [of "s\<lparr>token_count := 1\<rparr>" w])
  have n: "Clear_calls (s\<lparr>token_count := 1\<rparr>) w = 1"
    using rel Clear_zero [of "s\<lparr>token_count := 0\<rparr>" w]
    by (simp add: Clear_calls.simps [of "s\<lparr>token_count := 1\<rparr>" w])
  from r [OF assms(1), of m] M c n show ?thesis by simp
qed

text \<open>
  C2, as the code has it. Start with \<open>token_count \<le> 0\<close> (a new object, or one whose
  tokens are all released) and make \<open>M\<close> calls of \<open>Acquire\<close> with no \<open>Release\<close> in
  between, \<open>N \<ge> 1\<close> of them successful, after which the channel is not marked
  closed. Then the count is \<open>N\<close>. If each of the next \<open>N - 1\<close> system calls (the
  writes) transfers one byte, \<open>Clear\<close> returns after exactly \<open>N\<close> calls of
  \<open>Release\<close>, which write \<open>N - 1\<close> bytes (the implicit token is not written), and the
  count is 0. A second \<open>Clear\<close> right after returns the same object and world after
  zero calls of \<open>Release\<close>; and in any state with count 0, \<open>Clear\<close> changes nothing.
  On a channel that is already marked closed, any \<open>K \<ge> 1\<close> calls of \<open>Acquire\<close> in a
  row all return true, leave the count at 1 and the world unchanged, and \<open>Clear\<close>
  then returns after exactly one call of \<open>Release\<close>, with count 0 and no write.
\<close>

theorem Clear_returns_all_tokens:
  assumes "token_count s \<le> 0"
    and "run (replicate M Call_Acquire) s w = (Returns (bs, s1), w1)"
    and "\<not> jobserver_closed s1"
    and "N = count_list bs True" and "1 \<le> N"
    and "\<forall>k<N - 1. answers w1 (calls w1 + k) = Ok 1"
  shows "token_count s1 = int N \<and>
         Clear_calls s1 w1 = N \<and>
         Clear s1 w1 = Release_times N s1 w1 \<and>
         (let s2 = s1\<lparr>token_count := 0\<rparr>;
              w2 = w1\<lparr>calls := calls w1 + (N - 1),
                     trace := trace w1 @ replicate (N - 1) (Sys_write (wfd s1) (CHR ''+''))\<rparr>
          in Clear s1 w1 = (Returns s2, w2) \<and>
             Clear s2 w2 = (Returns s2, w2) \<and> Clear_calls s2 w2 = 0) \<and>
         (\<forall>s0 w0. token_count s0 = 0 \<longrightarrow>
            Clear s0 w0 = (Returns s0, w0) \<and> Clear_calls s0 w0 = 0) \<and>
         (\<forall>sc wc K. jobserver_closed sc \<and> 0 < K \<longrightarrow>
            run (replicate K Call_Acquire) sc wc =
              (Returns (replicate K True, sc\<lparr>token_count := 1\<rparr>), wc) \<and>
            Clear_calls (sc\<lparr>token_count := 1\<rparr>) wc = 1 \<and>
            Clear (sc\<lparr>token_count := 1\<rparr>) wc = (Returns (sc\<lparr>token_count := 0\<rparr>), wc))"
proof -
  from assms(4,5) have M: "0 < M"
    using assms(2) by (cases M) auto
  from acquires_count_fresh [OF assms(2,3,1) M] assms(4)
  have tc: "token_count s1 = int N" by simp
  from assms(5) obtain m where N: "N = Suc m" by (cases N) auto
  from Clear_open [OF assms(3), of m w1] tc N assms(6)
  have c: "Clear s1 w1 =
             (Returns (s1\<lparr>token_count := 0\<rparr>),
              w1\<lparr>calls := calls w1 + m,
                 trace := trace w1 @ replicate m (Sys_write (wfd s1) (CHR ''+''))\<rparr>)"
    and n: "Clear_calls s1 w1 = Suc m" by simp_all
  from Clear_is_Release_times [of s1 w1] n N
  have rt: "Clear s1 w1 = Release_times N s1 w1" by simp
  have z: "Clear s0 w0 = (Returns s0, w0) \<and> Clear_calls s0 w0 = 0"
    if "token_count s0 = 0" for s0 w0
    using that by (rule Clear_zero)
  have k: "run (replicate K Call_Acquire) sc wc =
             (Returns (replicate K True, sc\<lparr>token_count := 1\<rparr>), wc) \<and>
           Clear_calls (sc\<lparr>token_count := 1\<rparr>) wc = 1 \<and>
           Clear (sc\<lparr>token_count := 1\<rparr>) wc = (Returns (sc\<lparr>token_count := 0\<rparr>), wc)"
    if "jobserver_closed sc \<and> 0 < K" for sc wc K
    using that closed_Acquires_hold_one [of sc K wc] by blast
  from tc n N c rt z have first: "token_count s1 = int N \<and>
         Clear_calls s1 w1 = N \<and>
         Clear s1 w1 = Release_times N s1 w1 \<and>
         (let s2 = s1\<lparr>token_count := 0\<rparr>;
              w2 = w1\<lparr>calls := calls w1 + (N - 1),
                     trace := trace w1 @ replicate (N - 1) (Sys_write (wfd s1) (CHR ''+''))\<rparr>
          in Clear s1 w1 = (Returns s2, w2) \<and>
             Clear s2 w2 = (Returns s2, w2) \<and> Clear_calls s2 w2 = 0) \<and>
         (\<forall>s0 w0. token_count s0 = 0 \<longrightarrow>
            Clear s0 w0 = (Returns s0, w0) \<and> Clear_calls s0 w0 = 0)"
    by (simp add: Let_def)
  from first k show ?thesis by blast
qed


theorem Clear_returns_all_tokens_witness:
  "token_count pipe_3_4 \<le> 0 \<and>
   run (replicate 3 Call_Acquire) pipe_3_4 (fresh_world (\<lambda>k. Ok 1)) =
     (Returns ([True, True, True], pipe_3_4\<lparr>token_count := 3\<rparr>),
      (fresh_world (\<lambda>k. Ok 1))\<lparr>calls := 2, trace := [Sys_read 3, Sys_read 3]\<rparr>) \<and>
   \<not> jobserver_closed (pipe_3_4\<lparr>token_count := 3\<rparr>) \<and>
   3 = count_list [True, True, True] True \<and>
   answers (fresh_world (\<lambda>k. Ok 1)) 2 = Ok 1 \<and>
   answers (fresh_world (\<lambda>k. Ok 1)) 3 = Ok 1 \<and>
   token_count (pipe_3_4\<lparr>token_count := 3\<rparr>) = 3 \<and>
   Clear_calls (pipe_3_4\<lparr>token_count := 3\<rparr>)
     ((fresh_world (\<lambda>k. Ok 1))\<lparr>calls := 2, trace := [Sys_read 3, Sys_read 3]\<rparr>) = 3 \<and>
   Clear (pipe_3_4\<lparr>token_count := 3\<rparr>)
     ((fresh_world (\<lambda>k. Ok 1))\<lparr>calls := 2, trace := [Sys_read 3, Sys_read 3]\<rparr>) =
     (Returns (pipe_3_4\<lparr>token_count := 0\<rparr>),
      (fresh_world (\<lambda>k. Ok 1))
        \<lparr>calls := 4,
         trace := [Sys_read 3, Sys_read 3, Sys_write 4 (CHR ''+''), Sys_write 4 (CHR ''+'')]\<rparr>) \<and>
   Clear (pipe_3_4\<lparr>token_count := 0\<rparr>) granting_world =
     (Returns (pipe_3_4\<lparr>token_count := 0\<rparr>), granting_world) \<and>
   jobserver_closed pipe_3_closed \<and>
   run (replicate 4 Call_Acquire) pipe_3_closed granting_world =
     (Returns ([True, True, True, True], pipe_3_closed\<lparr>token_count := 1\<rparr>),
      granting_world) \<and>
   Clear_calls (pipe_3_closed\<lparr>token_count := 1\<rparr>) granting_world = 1 \<and>
   Clear (pipe_3_closed\<lparr>token_count := 1\<rparr>) granting_world =
     (Returns (pipe_3_closed\<lparr>token_count := 0\<rparr>), granting_world)"
proof -
  let ?w = "fresh_world (\<lambda>k. Ok 1)"
  let ?s1 = "pipe_3_4\<lparr>token_count := 3\<rparr>"
  let ?w1 = "?w\<lparr>calls := 2, trace := [Sys_read 3, Sys_read 3]\<rparr>"
  have h1: "token_count pipe_3_4 \<le> 0" by (simp add: pipe_3_4_def)
  have h2: "run (replicate 3 Call_Acquire) pipe_3_4 ?w = (Returns ([True, True, True], ?s1), ?w1)"
    by (simp add: numeral_3_eq_3 run_defs pipe_3_4_def fresh_world_def)
  have h3: "\<not> jobserver_closed ?s1" by (simp add: pipe_3_4_def)
  have h4: "3 = count_list [True, True, True] True" by simp
  have h5: "1 \<le> (3::nat)" by simp
  have h6: "\<forall>k<3 - 1. answers ?w1 (calls ?w1 + k) = Ok 1" by (simp add: fresh_world_def)
  note t = Clear_returns_all_tokens [OF h1 h2 h3 h4 h5 h6, unfolded Let_def]
  from t [THEN conjunct1] have c1: "token_count ?s1 = 3" by simp
  have c1': "Clear_calls ?s1 ?w1 = 3"
    by (rule t [THEN conjunct2, THEN conjunct1])
  have c2raw: "Clear ?s1 ?w1 =
     (Returns (?s1\<lparr>token_count := 0\<rparr>),
      ?w1\<lparr>calls := calls ?w1 + (3 - 1),
          trace := trace ?w1 @ replicate (3 - 1) (Sys_write (wfd ?s1) (CHR ''+''))\<rparr>)"
    by (rule t [THEN conjunct2, THEN conjunct2, THEN conjunct2, THEN conjunct1, THEN conjunct1])
  have c2: "Clear ?s1 ?w1 =
     (Returns (pipe_3_4\<lparr>token_count := 0\<rparr>),
      ?w\<lparr>calls := 4,
         trace := [Sys_read 3, Sys_read 3, Sys_write 4 (CHR ''+''), Sys_write 4 (CHR ''+'')]\<rparr>)"
    unfolding c2raw by (simp add: pipe_3_4_def fresh_world_def numeral_2_eq_2)
  have a: "answers ?w 2 = Ok 1" "answers ?w 3 = Ok 1" by (simp_all add: fresh_world_def)
  have c3: "Clear (pipe_3_4\<lparr>token_count := 0\<rparr>) granting_world =
              (Returns (pipe_3_4\<lparr>token_count := 0\<rparr>), granting_world)"
    using t [THEN conjunct2, THEN conjunct2, THEN conjunct2, THEN conjunct2, THEN conjunct1,
             THEN spec, THEN spec, of "pipe_3_4\<lparr>token_count := 0\<rparr>" granting_world]
    by simp
  have k0: "jobserver_closed pipe_3_closed" by (simp add: pipe_3_closed_def)
  have k1: "jobserver_closed pipe_3_closed \<and> 0 < (4::nat)" using k0 by simp
  note u = t [THEN conjunct2, THEN conjunct2, THEN conjunct2, THEN conjunct2, THEN conjunct2,
              THEN spec, THEN spec, THEN spec, THEN mp, OF k1, of granting_world]
  have r4: "replicate 4 True = [True, True, True, True]" by (simp add: numeral_Bit0)
  have k2: "run (replicate 4 Call_Acquire) pipe_3_closed granting_world =
              (Returns ([True, True, True, True], pipe_3_closed\<lparr>token_count := 1\<rparr>),
               granting_world)"
    using u [THEN conjunct1] unfolding r4 .
  have k3: "Clear_calls (pipe_3_closed\<lparr>token_count := 1\<rparr>) granting_world = 1"
    by (rule u [THEN conjunct2, THEN conjunct1])
  have k4: "Clear (pipe_3_closed\<lparr>token_count := 1\<rparr>) granting_world =
              (Returns (pipe_3_closed\<lparr>token_count := 0\<rparr>), granting_world)"
    by (rule u [THEN conjunct2, THEN conjunct2])
  from h1 h2 h3 h4 a c1 c1' c2 c3 k0 k2 k3 k4 show ?thesis by blast
qed

text \<open>
  C2 as stated fails on a closed channel, where every \<open>Acquire\<close> sets the count to 1
  instead of adding to it: after two successful \<open>Acquire\<close> calls on the object
  constructed from \<^verbatim>\<open>3,-2\<close>, \<open>Clear\<close> calls \<open>Release\<close> once, not twice.
\<close>

theorem closed_channel_Clear_releases_once:
  "Jobserver (Some ''--jobserver-auth=3,-2'') granting_world =
     (Returns pipe_3_closed, granting_world) \<and>
   run [Call_Acquire, Call_Acquire] pipe_3_closed granting_world =
     (Returns ([True, True], pipe_3_closed\<lparr>token_count := 1\<rparr>), granting_world) \<and>
   Clear_calls (pipe_3_closed\<lparr>token_count := 1\<rparr>) granting_world = 1 \<and>
   Clear (pipe_3_closed\<lparr>token_count := 1\<rparr>) granting_world =
     (Returns (pipe_3_closed\<lparr>token_count := 0\<rparr>), granting_world)"
proof -
  have "run [Call_Acquire, Call_Acquire] pipe_3_closed granting_world =
     (Returns ([True, True], pipe_3_closed\<lparr>token_count := 1\<rparr>), granting_world)"
    by (simp add: run_defs pipe_3_closed_def)
  moreover have "Clear_calls (pipe_3_closed\<lparr>token_count := 1\<rparr>) granting_world = 1"
    by (simp add: run_defs pipe_3_closed_def)
  moreover have "Clear (pipe_3_closed\<lparr>token_count := 1\<rparr>) granting_world =
     (Returns (pipe_3_closed\<lparr>token_count := 0\<rparr>), granting_world)"
    by (simp add: run_defs pipe_3_closed_def)
  ultimately show ?thesis
    using Jobserver_pipe_3_closed [of "\<lambda>k. Ok 1"] by (simp add: granting_world_def)
qed

subsection \<open>The words of \<^verbatim>\<open>MAKEFLAGS\<close>\<close>

text \<open>
  The loop of lines 37-50 from index \<open>flag_char\<close> is the loop from 0 on the rest of
  the string. So the words are what one expects: a blank is skipped, and a non-empty
  run without blanks is a word when a blank or the end of the string follows it.
\<close>

lemma tokenize_from:
  "tokenize makeflags flag_char flags = flags @ tokenize (drop flag_char makeflags) 0 []"
proof (induction "length makeflags - flag_char" arbitrary: makeflags flag_char flags
         rule: less_induct)
  case less
  let ?rest = "drop flag_char makeflags"
  let ?flag = "takeWhile (\<lambda>c. \<not> isblank c) ?rest"
  show ?case
  proof (cases "flag_char < length makeflags")
    case False
    then show ?thesis by (simp add: tokenize.simps)
  next
    case True
    have "tokenize makeflags flag_char flags =
            tokenize makeflags (flag_char + length ?flag + 1)
              (if ?flag \<noteq> [] then flags @ [?flag] else flags)"
      using True by (subst tokenize.simps) (simp add: Let_def)
    also have "\<dots> = (if ?flag \<noteq> [] then flags @ [?flag] else flags) @
                     tokenize (drop (flag_char + length ?flag + 1) makeflags) 0 []"
      using True by (intro less) simp
    finally have l: "tokenize makeflags flag_char flags =
                       (if ?flag \<noteq> [] then flags @ [?flag] else flags) @
                       tokenize (drop (flag_char + length ?flag + 1) makeflags) 0 []" .
    have "tokenize ?rest 0 [] =
            tokenize ?rest (0 + length ?flag + 1) (if ?flag \<noteq> [] then [] @ [?flag] else [])"
      using True by (subst tokenize.simps) (simp add: Let_def)
    also have "\<dots> = (if ?flag \<noteq> [] then [] @ [?flag] else []) @
                     tokenize (drop (0 + length ?flag + 1) ?rest) 0 []"
      using True by (intro less) simp
    finally have r: "tokenize ?rest 0 [] =
                       (if ?flag \<noteq> [] then [?flag] else []) @
                       tokenize (drop (flag_char + length ?flag + 1) makeflags) 0 []"
      by (simp add: add.commute)
    from l r show ?thesis by simp
  qed
qed

lemma tokenize_empty: "tokenize [] 0 [] = []"
  by (simp add: tokenize.simps)

lemma tokenize_blank:
  assumes "isblank b"
  shows "tokenize (b # rest) 0 [] = tokenize rest 0 []"
proof -
  have "tokenize (b # rest) 0 [] = tokenize (b # rest) 1 []"
    using assms by (subst tokenize.simps) simp
  also have "\<dots> = tokenize rest 0 []"
    by (subst tokenize_from) simp
  finally show ?thesis .
qed

lemma tokenize_word:
  assumes "w \<noteq> []" and "\<forall>c\<in>set w. \<not> isblank c" and "isblank b"
  shows "tokenize (w @ b # rest) 0 [] = w # tokenize rest 0 []"
proof -
  have t: "takeWhile (\<lambda>c. \<not> isblank c) (w @ b # rest) = w"
    using assms(2,3) by (simp add: takeWhile_append2)
  have "tokenize (w @ b # rest) 0 [] = tokenize (w @ b # rest) (length w + 1) [w]"
    using assms(1) by (subst tokenize.simps) (simp add: t)
  also have "\<dots> = [w] @ tokenize rest 0 []"
    by (subst tokenize_from) simp
  finally show ?thesis by simp
qed

lemma tokenize_last_word:
  assumes "w \<noteq> []" and "\<forall>c\<in>set w. \<not> isblank c"
  shows "tokenize w 0 [] = [w]"
proof -
  have t: "takeWhile (\<lambda>c. \<not> isblank c) w = w"
    using assms(2) by simp
  have "tokenize w 0 [] = tokenize w (length w + 1) [w]"
    using assms(1) by (subst tokenize.simps) (simp add: t)
  also have "\<dots> = [w]"
    by (simp add: tokenize.simps)
  finally show ?thesis .
qed

subsection \<open>Which flag is used\<close>

lemma find_key_last:
  "find_key key flags flag = (case last_value key flags of None \<Rightarrow> flag | Some v \<Rightarrow> v)"
proof (induction flags arbitrary: flag)
  case Nil
  show ?case by (simp add: last_value_def)
next
  case (Cons f flags)
  show ?case
    by (simp add: Cons.IH last_value_def split: list.splits)
qed

text \<open>
  C6, as the code has it. When some word starts with \<^verbatim>\<open>--jobserver-auth=\<close> and the
  last such word has a non-empty value, that value is used, wherever the
  \<^verbatim>\<open>--jobserver-fds=\<close> words stand. When the value of the last
  \<^verbatim>\<open>--jobserver-auth=\<close> word is empty, the value of the last \<^verbatim>\<open>--jobserver-fds=\<close>
  word is used (none, if there is no such word). For either key the last word wins.
\<close>

theorem auth_value_wins:
  assumes "last_value AUTH_KEY (tokenize makeflags 0 []) = Some a"
  shows "(a \<noteq> [] \<longrightarrow> jobserver_flag (Some makeflags) = a) \<and>
         (a = [] \<longrightarrow>
            jobserver_flag (Some makeflags) =
              (case last_value FDS_KEY (tokenize makeflags 0 []) of
                 None \<Rightarrow> [] | Some b \<Rightarrow> b))"
  using assms
  by (simp add: jobserver_flag_def find_flag_def Let_def find_key_last)

theorem auth_value_wins_witness:
  "last_value AUTH_KEY
     (tokenize ''--jobserver-auth=5,6 --jobserver-fds=3,4 --jobserver-auth=9,10 --jobserver-fds=7,8'' 0 []) =
     Some ''9,10'' \<and>
   jobserver_flag
     (Some ''--jobserver-auth=5,6 --jobserver-fds=3,4 --jobserver-auth=9,10 --jobserver-fds=7,8'') =
     ''9,10'' \<and>
   last_value AUTH_KEY (tokenize ''--jobserver-fds=3,4 --jobserver-auth= --jobserver-fds=7,8'' 0 []) =
     Some [] \<and>
   jobserver_flag (Some ''--jobserver-fds=3,4 --jobserver-auth= --jobserver-fds=7,8'') = ''7,8''"
proof -
  let ?m1 = "''--jobserver-auth=5,6 --jobserver-fds=3,4 --jobserver-auth=9,10 --jobserver-fds=7,8''"
  let ?m2 = "''--jobserver-fds=3,4 --jobserver-auth= --jobserver-fds=7,8''"
  have t1: "tokenize ?m1 0 [] =
      [''--jobserver-auth=5,6'', ''--jobserver-fds=3,4'', ''--jobserver-auth=9,10'',
       ''--jobserver-fds=7,8'']"
    by (simp add: tokenize.simps isblank_def)
  have t2: "tokenize ?m2 0 [] = [''--jobserver-fds=3,4'', ''--jobserver-auth='', ''--jobserver-fds=7,8'']"
    by (simp add: tokenize.simps isblank_def)
  have h1: "last_value AUTH_KEY (tokenize ?m1 0 []) = Some ''9,10''"
    by (simp add: t1 last_value_def AUTH_KEY_def)
  have h2: "last_value AUTH_KEY (tokenize ?m2 0 []) = Some []"
    by (simp add: t2 last_value_def AUTH_KEY_def)
  have f2: "last_value FDS_KEY (tokenize ?m2 0 []) = Some ''7,8''"
    by (simp add: t2 last_value_def FDS_KEY_def)
  from auth_value_wins [OF h1] have c1: "jobserver_flag (Some ?m1) = ''9,10''" by simp
  from auth_value_wins [OF h2] f2 have c2: "jobserver_flag (Some ?m2) = ''7,8''" by simp
  from h1 h2 c1 c2 show ?thesis by blast
qed

text \<open>
  C6 as stated fails: the second loop runs whenever the first leaves \<open>flag\<close> empty,
  also when the last \<^verbatim>\<open>--jobserver-auth=\<close> word is there and its value is empty.
\<close>

theorem empty_auth_value_falls_back:
  "last_value AUTH_KEY (tokenize ''--jobserver-fds=3,4 --jobserver-auth='' 0 []) = Some [] \<and>
   last_value FDS_KEY (tokenize ''--jobserver-fds=3,4 --jobserver-auth='' 0 []) = Some ''3,4'' \<and>
   jobserver_flag (Some ''--jobserver-fds=3,4 --jobserver-auth='') = ''3,4'' \<and>
   Jobserver (Some ''--jobserver-fds=3,4 --jobserver-auth='') granting_world =
     (Returns pipe_3_4, diag (Info ''using jobserver: %s'' [Str ''3,4'']) granting_world)"
proof -
  let ?m = "''--jobserver-fds=3,4 --jobserver-auth=''"
  have t: "tokenize ?m 0 [] = [''--jobserver-fds=3,4'', ''--jobserver-auth='']"
    by (simp add: tokenize.simps isblank_def)
  have "last_value AUTH_KEY (tokenize ?m 0 []) = Some []"
    by (simp add: t last_value_def AUTH_KEY_def)
  moreover have "last_value FDS_KEY (tokenize ?m 0 []) = Some ''3,4''"
    by (simp add: t last_value_def FDS_KEY_def)
  moreover have "jobserver_flag (Some ?m) = ''3,4''"
    by (simp add: jobserver_flag_def t find_flag_def AUTH_KEY_def FDS_KEY_def)
  moreover have "Jobserver (Some ?m) granting_world =
     (Returns pipe_3_4, diag (Info ''using jobserver: %s'' [Str ''3,4'']) granting_world)"
    by (simp add: eval_defs pipe_3_4_def granting_world_def)
  ultimately show ?thesis by blast
qed

subsection \<open>Scanning the pair\<close>

lemma digit_not_space: "isdigit c \<Longrightarrow> \<not> isspace c"
  by (auto simp: isdigit_def isspace_def)

lemma digit_not_sign: "isdigit c \<Longrightarrow> c \<noteq> CHR ''-'' \<and> c \<noteq> CHR ''+''"
  by (auto simp: isdigit_def)

lemma sign_not_space: "\<not> isspace (CHR ''-'')" "\<not> isspace (CHR ''+'')"
  by (simp_all add: isspace_def)

lemma takeWhile_digits:
  assumes "list_all isdigit ds" and "rest = [] \<or> \<not> isdigit (hd rest)"
  shows "takeWhile isdigit (ds @ rest) = ds" and "dropWhile isdigit (ds @ rest) = rest"
proof -
  from assms(2) have t: "takeWhile isdigit rest = []" and d: "dropWhile isdigit rest = rest"
    by (cases rest; simp)+
  from assms(1) have a: "\<And>x. x \<in> set ds \<Longrightarrow> isdigit x" by (simp add: list_all_iff)
  from a t show "takeWhile isdigit (ds @ rest) = ds" by (simp add: takeWhile_append2)
  from a d show "dropWhile isdigit (ds @ rest) = rest" by (simp add: dropWhile_append2)
qed

lemma scan_d_literal:
  assumes "list_all isspace ws" and "signed_decimal l"
    and "rest = [] \<or> \<not> isdigit (hd rest)" and "in_int_range (signed_value l)"
  shows "scan_d (ws @ l @ rest) = Converted (signed_value l) rest"
proof -
  from assms(2) obtain c cs where l: "l = c # cs" by (cases l) (auto simp: signed_decimal_def)
  from assms(2) l have c: "\<not> isspace c"
    by (auto simp: signed_decimal_def sign_not_space digit_not_space split: if_splits)
  from assms(1) have "\<And>x. x \<in> set ws \<Longrightarrow> isspace x" by (simp add: list_all_iff)
  with c l have dw: "dropWhile isspace (ws @ l @ rest) = c # cs @ rest"
    by (simp add: dropWhile_append2)
  show ?thesis
  proof (cases "c = CHR ''-'' \<or> c = CHR ''+''")
    case True
    with assms(2) l have ds: "cs \<noteq> []" "list_all isdigit cs"
      by (auto simp: signed_decimal_def)
    from takeWhile_digits [OF ds(2) assms(3)] ds(1) True assms(4) l dw show ?thesis
      by (auto simp: scan_d_def Let_def signed_value_def in_int_range_def)
  next
    case False
    with assms(2) l have ds: "list_all isdigit (c # cs)"
      by (auto simp: signed_decimal_def)
    from takeWhile_digits [OF ds assms(3)] False assms(4) l dw show ?thesis
      by (auto simp: scan_d_def Let_def signed_value_def in_int_range_def)
  qed
qed

lemma dropWhile_digits_rest: "dropWhile isdigit body = [] \<or> \<not> isdigit (hd (dropWhile isdigit body))"
  using hd_dropWhile [of isdigit body] by auto

lemma scan_d_Converted:
  assumes "scan_d inp = Converted x rest"
  shows "\<exists>ws l. inp = ws @ l @ rest \<and> list_all isspace ws \<and> signed_decimal l \<and>
           signed_value l = x \<and> in_int_range x \<and> (rest = [] \<or> \<not> isdigit (hd rest))"
proof -
  let ?ws = "takeWhile isspace inp"
  have ws: "list_all isspace ?ws"
    by (simp add: list_all_iff) (meson set_takeWhileD)
  from assms obtain c cs where dw: "dropWhile isspace inp = c # cs"
    by (cases "dropWhile isspace inp") (auto simp: scan_d_def)
  have inp: "inp = ?ws @ c # cs" using dw takeWhile_dropWhile_id [of isspace inp] by simp
  let ?body = "if c = CHR ''-'' \<or> c = CHR ''+'' then cs else c # cs"
  let ?ds = "takeWhile isdigit ?body"
  let ?sign = "if c = CHR ''-'' \<or> c = CHR ''+'' then [c] else []"
  from assms dw have nonempty: "?ds \<noteq> []"
    by (auto simp: scan_d_def Let_def split: if_splits)
  from assms dw have rest: "rest = dropWhile isdigit ?body"
    and x: "x = (if c = CHR ''-'' then - decimal ?ds else decimal ?ds)"
    and range: "in_int_range x"
    by (auto simp: scan_d_def Let_def in_int_range_def split: if_splits)
  have body: "?body = ?ds @ rest" using rest by simp
  have digits: "list_all isdigit ?ds"
    by (simp add: list_all_iff) (meson set_takeWhileD)
  let ?l = "?sign @ ?ds"
  have l1: "c # cs = ?l @ rest" using body by (auto split: if_splits)
  have l2: "signed_decimal ?l"
  proof (cases "c = CHR ''-'' \<or> c = CHR ''+''")
    case True
    with nonempty digits show ?thesis by (auto simp: signed_decimal_def)
  next
    case False
    from nonempty obtain d ds' where d: "?ds = d # ds'" by (cases ?ds) auto
    with False digits have "isdigit d" by auto
    with d False digits show ?thesis
      by (auto simp: signed_decimal_def dest: digit_not_sign)
  qed
  have l3: "signed_value ?l = x"
  proof (cases "c = CHR ''-'' \<or> c = CHR ''+''")
    case True
    with x show ?thesis by (auto simp: signed_value_def)
  next
    case False
    from nonempty obtain d ds' where d: "?ds = d # ds'" by (cases ?ds) auto
    with False digits have "isdigit d" by auto
    then have "d \<noteq> CHR ''-''" "d \<noteq> CHR ''+''" by (auto dest: digit_not_sign)
    with d False x show ?thesis by (simp add: signed_value_def)
  qed
  have l4: "rest = [] \<or> \<not> isdigit (hd rest)"
    unfolding rest by (rule dropWhile_digits_rest)
  from inp l1 have "inp = ?ws @ ?l @ rest" by simp
  with ws l2 l3 range l4 show ?thesis by blast
qed

lemma comma_not_digit: "\<not> isdigit (CHR '','')"
  by (simp add: isdigit_def)

lemma sscanf_two_iff: "sscanf_d_d v a b = Some (2, x, y) \<longleftrightarrow> two_integers v x y"
proof
  assume s: "sscanf_d_d v a b = Some (2, x, y)"
  then obtain rest1 where c1: "scan_d v = Converted x rest1"
    by (auto simp: sscanf_d_d_def split: conversion.splits list.splits if_splits)
  with s obtain rest' where r1: "rest1 = CHR '','' # rest'"
    by (auto simp: sscanf_d_d_def split: conversion.splits list.splits if_splits)
  with s c1 obtain rest where c2: "scan_d rest' = Converted y rest"
    by (auto simp: sscanf_d_d_def split: conversion.splits list.splits if_splits)
  from scan_d_Converted [OF c1] obtain ws1 l1
    where d1: "v = ws1 @ l1 @ rest1" "list_all isspace ws1" "signed_decimal l1"
      "signed_value l1 = x" "in_int_range x" by blast
  from scan_d_Converted [OF c2] obtain ws2 l2
    where d2: "rest' = ws2 @ l2 @ rest" "list_all isspace ws2" "signed_decimal l2"
      "signed_value l2 = y" "in_int_range y" "rest = [] \<or> \<not> isdigit (hd rest)" by blast
  from d1(1) r1 d2(1) have "v = ws1 @ l1 @ '','' @ ws2 @ l2 @ rest" by simp
  with d1 d2 show "two_integers v x y" unfolding two_integers_def by blast
next
  assume "two_integers v x y"
  then obtain ws1 l1 ws2 l2 rest
    where v: "v = ws1 @ l1 @ '','' @ ws2 @ l2 @ rest"
      and d1: "list_all isspace ws1" "signed_decimal l1" "signed_value l1 = x" "in_int_range x"
      and d2: "list_all isspace ws2" "signed_decimal l2" "signed_value l2 = y" "in_int_range y"
        "rest = [] \<or> \<not> isdigit (hd rest)"
    unfolding two_integers_def by blast
  let ?rest1 = "CHR '','' # ws2 @ l2 @ rest"
  have "?rest1 = [] \<or> \<not> isdigit (hd ?rest1)" by (simp add: comma_not_digit)
  from scan_d_literal [OF d1(1,2) this] d1(3,4) v
  have c1: "scan_d v = Converted x ?rest1" by simp
  from scan_d_literal [OF d2(1,2,5)] d2(3,4)
  have c2: "scan_d (ws2 @ l2 @ rest) = Converted y rest" by simp
  from c1 c2 show "sscanf_d_d v a b = Some (2, x, y)"
    by (simp add: sscanf_d_d_def)
qed

lemma sscanf_ret:
  assumes "sscanf_d_d v a b = Some (n, r, x)"
  shows "n = 2 \<or> (n \<noteq> 2 \<and> x = b)"
  using assms
  by (auto simp: sscanf_d_d_def split: conversion.splits list.splits if_splits)

lemma jobserver_flag_nonempty:
  assumes "jobserver_flag (Some makeflags) = v" and "v \<noteq> []"
  shows "length makeflags \<noteq> 0 \<and> find_flag (tokenize makeflags 0 []) = v"
proof -
  have "makeflags \<noteq> []"
  proof
    assume "makeflags = []"
    with assms show False
      by (simp add: jobserver_flag_def tokenize.simps find_flag_def)
  qed
  with assms show ?thesis by (simp add: jobserver_flag_def)
qed

lemma initial_fields:
  "token_count initial = 0" "jobserver_name initial = []" "\<not> jobserver_closed initial"
  "\<not> jobserver_fifo initial" "rfd initial = - 1" "wfd initial = - 1"
  by (simp_all add: initial_def)

lemma Jobserver_pipe_value:
  assumes "jobserver_flag (Some makeflags) = v" and "v \<noteq> []" and "\<not> prefix FIFO_KEY v"
  shows "Jobserver (Some makeflags) w =
           (case sscanf_d_d v (- 1) (- 1) of
              None \<Rightarrow> (Undefined, w)
            | Some (n, r, x) \<Rightarrow>
                if n \<noteq> 2 then
                  (Returns (initial\<lparr>jobserver_name := v, rfd := r, wfd := x\<rparr>),
                   diag (Warning (''invalid jobserver value: '%s'' @ [CHR 0x27]) [Str v]) w)
                else attach (initial\<lparr>jobserver_name := v, rfd := r, wfd := x\<rparr>) w)"
  using jobserver_flag_nonempty [OF assms(1,2)] assms(2,3)
  by (simp add: Jobserver_def Let_def initial_fields split: option.splits)

lemma attach_pipe:
  assumes "\<not> jobserver_fifo s"
  shows "attach s w =
           (if rfd s \<ge> 0 \<and> wfd s \<ge> 0 then
              (Returns (s\<lparr>token_count := - 1\<rparr>),
               diag (Info ''using jobserver: %s'' [Str (jobserver_name s)]) w)
            else if rfd s = - 1 \<or> wfd s = - 1 then
              (Exits,
               diag (Fatal ''failed to open jobserver: %s: %s''
                       [Str (jobserver_name s),
                        if errno w \<noteq> 0 then Strerror (errno w)
                        else Str ''No such file or directory'']) w)
            else (Returns (s\<lparr>jobserver_closed := True, token_count := - 1\<rparr>), w))"
  using assms by (simp add: attach_def open_fifo_def)

text \<open>
  C5, as the code has it. A non-empty value that does not start with \<^verbatim>\<open>fifo:\<close> is
  taken as the pair \<open>(x, y)\<close> exactly when it starts with two integers: the
  constructor goes on to judge the descriptors \<open>x\<close> and \<open>y\<close>, and what follows the
  second integer is not looked at. A value that does not start with two integers
  (and whose scan is defined) draws the warning that names it; the object then has
  count 0 and is not enabled.
\<close>

theorem pair_value:
  assumes "jobserver_flag (Some makeflags) = v" and "v \<noteq> []" and "\<not> prefix FIFO_KEY v"
  shows "(two_integers v x y \<longrightarrow>
            Jobserver (Some makeflags) w =
              attach (initial\<lparr>jobserver_name := v, rfd := x, wfd := y\<rparr>) w) \<and>
         ((\<forall>x y. \<not> two_integers v x y) \<and> fst (Jobserver (Some makeflags) w) \<noteq> Undefined \<longrightarrow>
            (\<exists>s. Jobserver (Some makeflags) w =
                    (Returns s, diag (Warning (''invalid jobserver value: '%s'' @ [CHR 0x27])
                                        [Str v]) w) \<and>
                  s = initial\<lparr>jobserver_name := v, rfd := rfd s\<rparr> \<and>
                  token_count s = 0 \<and> \<not> Enabled s))"
proof (intro conjI impI)
  assume "two_integers v x y"
  then have "sscanf_d_d v (- 1) (- 1) = Some (2, x, y)" by (simp add: sscanf_two_iff)
  with Jobserver_pipe_value [OF assms, of w]
  show "Jobserver (Some makeflags) w =
          attach (initial\<lparr>jobserver_name := v, rfd := x, wfd := y\<rparr>) w" by simp
next
  assume a: "(\<forall>x y. \<not> two_integers v x y) \<and> fst (Jobserver (Some makeflags) w) \<noteq> Undefined"
  with Jobserver_pipe_value [OF assms, of w] obtain n r x
    where s: "sscanf_d_d v (- 1) (- 1) = Some (n, r, x)"
    by (cases "sscanf_d_d v (- 1) (- 1)") auto
  from a s have n: "n \<noteq> 2" using sscanf_two_iff [of v "- 1" "- 1" r x] by auto
  with sscanf_ret [OF s] have x: "x = - 1" by simp
  let ?s = "initial\<lparr>jobserver_name := v, rfd := r, wfd := x\<rparr>"
  from Jobserver_pipe_value [OF assms, of w] s n
  have j: "Jobserver (Some makeflags) w =
             (Returns ?s, diag (Warning (''invalid jobserver value: '%s'' @ [CHR 0x27])
                                 [Str v]) w)" by simp
  have "?s = initial\<lparr>jobserver_name := v, rfd := rfd ?s\<rparr>" "token_count ?s = 0" "\<not> Enabled ?s"
    using x by (simp_all add: initial_def Enabled_def)
  with j show "\<exists>s. Jobserver (Some makeflags) w =
                    (Returns s, diag (Warning (''invalid jobserver value: '%s'' @ [CHR 0x27])
                                        [Str v]) w) \<and>
                  s = initial\<lparr>jobserver_name := v, rfd := rfd s\<rparr> \<and>
                  token_count s = 0 \<and> \<not> Enabled s" by blast
qed

theorem pair_value_witness:
  "jobserver_flag (Some ''--jobserver-auth=3,4abc'') = ''3,4abc'' \<and>
   \<not> prefix FIFO_KEY ''3,4abc'' \<and>
   two_integers ''3,4abc'' 3 4 \<and>
   Jobserver (Some ''--jobserver-auth=3,4abc'') (fresh_world (\<lambda>k. Err 9)) =
     attach (initial\<lparr>jobserver_name := ''3,4abc'', rfd := 3, wfd := 4\<rparr>)
       (fresh_world (\<lambda>k. Err 9)) \<and>
   jobserver_flag (Some ''--jobserver-auth=7abc'') = ''7abc'' \<and>
   \<not> prefix FIFO_KEY ''7abc'' \<and>
   (\<forall>x y. \<not> two_integers ''7abc'' x y) \<and>
   fst (Jobserver (Some ''--jobserver-auth=7abc'') (fresh_world (\<lambda>k. Err 9))) \<noteq> Undefined \<and>
   Jobserver (Some ''--jobserver-auth=7abc'') (fresh_world (\<lambda>k. Err 9)) =
     (Returns stray_7,
      diag (Warning (''invalid jobserver value: '%s'' @ [CHR 0x27]) [Str ''7abc''])
        (fresh_world (\<lambda>k. Err 9)))"
proof -
  let ?w = "fresh_world (\<lambda>k. Err 9)"
  have a1: "''3,4abc'' \<noteq> []" "\<not> prefix FIFO_KEY ''3,4abc''"
    and b1: "''7abc'' \<noteq> []" "\<not> prefix FIFO_KEY ''7abc''"
    by (simp_all add: FIFO_KEY_def)
  have a2: "two_integers ''3,4abc'' 3 4"
    unfolding sscanf_two_iff [of _ "- 1" "- 1", symmetric] by (simp add: eval_defs)
  have b2: "\<forall>x y. \<not> two_integers ''7abc'' x y"
    unfolding sscanf_two_iff [of _ "- 1" "- 1", symmetric] by (simp add: eval_defs)
  have b3: "fst (Jobserver (Some ''--jobserver-auth=7abc'') ?w) \<noteq> Undefined"
    by (simp add: eval_defs)
  from pair_value [OF flag_3_4abc a1, of 3 4 ?w] a2
  have a: "Jobserver (Some ''--jobserver-auth=3,4abc'') ?w =
             attach (initial\<lparr>jobserver_name := ''3,4abc'', rfd := 3, wfd := 4\<rparr>) ?w"
    by blast
  from pair_value [OF flag_7abc b1, of 0 0 ?w] b2 b3 obtain s
    where j: "Jobserver (Some ''--jobserver-auth=7abc'') ?w =
                (Returns s, diag (Warning (''invalid jobserver value: '%s'' @ [CHR 0x27])
                                    [Str ''7abc'']) ?w)"
    by blast
  have "Jobserver (Some ''--jobserver-auth=7abc'') ?w =
                (Returns stray_7, diag (Warning (''invalid jobserver value: '%s'' @ [CHR 0x27])
                                    [Str ''7abc'']) ?w)"
    by (simp add: eval_defs stray_7_def)
  with j have b: "s = stray_7" by simp
  from flag_3_4abc flag_7abc a1 b1 a2 b2 b3 a j [unfolded b] show ?thesis by blast
qed

text \<open>
  C5 as stated fails: \<^verbatim>\<open>sscanf\<close> returns 2 as soon as the second integer is
  converted, so characters after it do not make the value malformed.
\<close>

theorem trailing_characters_accepted:
  "Jobserver (Some ''--jobserver-auth=3,4abc'') granting_world =
     (Returns pipe_3_4abc, diag (Info ''using jobserver: %s'' [Str ''3,4abc'']) granting_world) \<and>
   Enabled pipe_3_4abc \<and> token_count pipe_3_4abc = - 1"
  by (simp add: eval_defs pipe_3_4abc_def Enabled_def granting_world_def)

subsection \<open>Descriptors that are not valid\<close>

text \<open>
  C4, as the code has it. For a pair \<open>(r, x)\<close> with a negative member: when neither
  is \<open>-1\<close> the constructor marks the channel closed, sets the count to \<open>-1\<close> and
  returns, with no diagnostic; when either is \<open>-1\<close> the process exits with the fatal
  diagnostic, also when the other descriptor is valid.
\<close>

theorem half_open_pair:
  assumes "jobserver_flag (Some makeflags) = v" and "\<not> prefix FIFO_KEY v"
    and "sscanf_d_d v (- 1) (- 1) = Some (2, r, x)"
    and "r < 0 \<or> x < 0"
  shows "(r \<noteq> - 1 \<and> x \<noteq> - 1 \<longrightarrow>
            Jobserver (Some makeflags) w =
              (Returns (initial\<lparr>jobserver_name := v, rfd := r, wfd := x,
                                jobserver_closed := True, token_count := - 1\<rparr>), w)) \<and>
         (r = - 1 \<or> x = - 1 \<longrightarrow>
            Jobserver (Some makeflags) w =
              (Exits,
               diag (Fatal ''failed to open jobserver: %s: %s''
                       [Str v, if errno w \<noteq> 0 then Strerror (errno w)
                               else Str ''No such file or directory'']) w))"
proof -
  have "v \<noteq> []"
  proof
    assume "v = []"
    with assms(3) show False by (simp add: sscanf_d_d_def scan_d_def)
  qed
  from Jobserver_pipe_value [OF assms(1) this assms(2), of w] assms(3,4)
  show ?thesis
    by (auto simp: attach_pipe initial_fields)
qed

theorem half_open_pair_witness:
  "jobserver_flag (Some ''--jobserver-auth=3,-2'') = ''3,-2'' \<and>
   \<not> prefix FIFO_KEY ''3,-2'' \<and>
   sscanf_d_d ''3,-2'' (- 1) (- 1) = Some (2, 3, - 2) \<and>
   (- 2 :: int) < 0 \<and> (3 :: int) \<noteq> - 1 \<and> (- 2 :: int) \<noteq> - 1 \<and>
   Jobserver (Some ''--jobserver-auth=3,-2'') (fresh_world (\<lambda>k. Err 9)) =
     (Returns pipe_3_closed, fresh_world (\<lambda>k. Err 9)) \<and>
   jobserver_flag (Some ''--jobserver-auth=3,-1'') = ''3,-1'' \<and>
   \<not> prefix FIFO_KEY ''3,-1'' \<and>
   sscanf_d_d ''3,-1'' (- 1) (- 1) = Some (2, 3, - 1) \<and>
   Jobserver (Some ''--jobserver-auth=3,-1'') (fresh_world (\<lambda>k. Err 9)) =
     (Exits,
      diag (Fatal ''failed to open jobserver: %s: %s''
              [Str ''3,-1'', Str ''No such file or directory'']) (fresh_world (\<lambda>k. Err 9)))"
proof -
  let ?w = "fresh_world (\<lambda>k. Err 9)"
  have a1: "\<not> prefix FIFO_KEY ''3,-2''" and b1: "\<not> prefix FIFO_KEY ''3,-1''"
    by (simp_all add: FIFO_KEY_def)
  have a2: "sscanf_d_d ''3,-2'' (- 1) (- 1) = Some (2, 3, - 2)"
    and b2: "sscanf_d_d ''3,-1'' (- 1) (- 1) = Some (2, 3, - 1)"
    by (simp_all add: eval_defs)
  have a3: "(3::int) < 0 \<or> (- 2::int) < 0" and b3: "(3::int) < 0 \<or> (- 1::int) < 0"
    by simp_all
  from half_open_pair [OF flag_3_m2 a1 a2 a3, of ?w]
  have a: "Jobserver (Some ''--jobserver-auth=3,-2'') ?w = (Returns pipe_3_closed, ?w)"
    by (simp add: initial_def pipe_3_closed_def)
  from half_open_pair [OF flag_3_m1 b1 b2 b3, of ?w]
  have b: "Jobserver (Some ''--jobserver-auth=3,-1'') ?w =
     (Exits,
      diag (Fatal ''failed to open jobserver: %s: %s''
              [Str ''3,-1'', Str ''No such file or directory'']) ?w)"
    by (simp add: fresh_world_def)
  from flag_3_m2 flag_3_m1 a1 b1 a2 b2 a b show ?thesis by simp
qed

text \<open>
  C4 as stated fails both ways: the half-open pair \<^verbatim>\<open>3,-1\<close> ends the process, and
  the pair \<^verbatim>\<open>-2,-3\<close>, with no valid descriptor, does not.
\<close>

theorem half_open_pair_aborts:
  "Jobserver (Some ''--jobserver-auth=3,-1'') granting_world =
     (Exits,
      diag (Fatal ''failed to open jobserver: %s: %s''
              [Str ''3,-1'', Str ''No such file or directory'']) granting_world) \<and>
   Jobserver (Some ''--jobserver-auth=-2,-3'') granting_world =
     (Returns \<lparr>token_count = - 1, jobserver_name = ''-2,-3'', jobserver_closed = True,
                jobserver_fifo = False, rfd = - 2, wfd = - 3\<rparr>,
      granting_world)"
  by (simp add: eval_defs granting_world_def)

subsection \<open>A descriptor the client never owned\<close>

text \<open>
  C10. When the scan of a value that does not start with \<^verbatim>\<open>fifo:\<close> converts one
  integer \<open>n\<close> and no second one (\<^verbatim>\<open>sscanf\<close> returns 1), the constructor warns and
  returns an object with count 0 that is not enabled, whose \<open>rfd\<close> is \<open>n\<close> and whose
  \<open>wfd\<close> is still \<open>-1\<close>; and if \<open>n\<close> is a descriptor number (\<open>n \<ge> 0\<close>), the
  destructor closes \<open>n\<close>.
\<close>

theorem stray_descriptor:
  assumes "jobserver_flag (Some makeflags) = v" and "\<not> prefix FIFO_KEY v"
    and "sscanf_d_d v (- 1) (- 1) = Some (1, n, x)"
  shows "\<exists>s w1. Jobserver (Some makeflags) w = (Returns s, w1) \<and>
           trace w1 = trace w @ [Warning (''invalid jobserver value: '%s'' @ [CHR 0x27]) [Str v]] \<and>
           token_count s = 0 \<and> \<not> Enabled s \<and> rfd s = n \<and> wfd s = - 1 \<and>
           (0 \<le> n \<longrightarrow>
              (\<exists>w2. Jobserver_destroy s w1 = (Returns (s\<lparr>rfd := - 1, wfd := - 1\<rparr>), w2) \<and>
                    trace w2 = trace w1 @ [Sys_close n]))"
proof -
  have v: "v \<noteq> []"
  proof
    assume "v = []"
    with assms(3) show False by (simp add: sscanf_d_d_def scan_d_def)
  qed
  from sscanf_ret [OF assms(3)] have x: "x = - 1" by simp
  let ?s = "initial\<lparr>jobserver_name := v, rfd := n, wfd := x\<rparr>"
  let ?w1 = "diag (Warning (''invalid jobserver value: '%s'' @ [CHR 0x27]) [Str v]) w"
  from Jobserver_pipe_value [OF assms(1) v assms(2), of w] assms(3)
  have j: "Jobserver (Some makeflags) w = (Returns ?s, ?w1)" by simp
  have f: "token_count ?s = 0" "\<not> Enabled ?s" "rfd ?s = n" "wfd ?s = - 1"
    using x by (simp_all add: initial_def Enabled_def)
  have t: "trace ?w1 = trace w @ [Warning (''invalid jobserver value: '%s'' @ [CHR 0x27]) [Str v]]"
    by (simp add: diag_def)
  have d: "\<exists>w2. Jobserver_destroy ?s ?w1 = (Returns (?s\<lparr>rfd := - 1, wfd := - 1\<rparr>), w2) \<and>
                trace w2 = trace ?w1 @ [Sys_close n]" if "0 \<le> n"
    using that f Clear_nothing_held [of ?s ?w1]
    by (auto simp: Jobserver_destroy_def and_then_def close_if_open_def syscall_def Let_def
          split: sysret.splits)
  from j f t d show ?thesis by blast
qed

theorem stray_descriptor_witness:
  "jobserver_flag (Some ''--jobserver-auth=7abc'') = ''7abc'' \<and>
   \<not> prefix FIFO_KEY ''7abc'' \<and>
   sscanf_d_d ''7abc'' (- 1) (- 1) = Some (1, 7, - 1) \<and>
   (\<exists>w1. Jobserver (Some ''--jobserver-auth=7abc'') (fresh_world (\<lambda>k. Ok 0)) = (Returns stray_7, w1) \<and>
      trace w1 = [Warning (''invalid jobserver value: '%s'' @ [CHR 0x27]) [Str ''7abc'']] \<and>
      \<not> Enabled stray_7 \<and>
      (\<exists>w2. Jobserver_destroy stray_7 w1 = (Returns (stray_7\<lparr>rfd := - 1, wfd := - 1\<rparr>), w2) \<and>
          trace w2 = [Warning (''invalid jobserver value: '%s'' @ [CHR 0x27]) [Str ''7abc''],
                      Sys_close 7]))"
proof -
  let ?w = "fresh_world (\<lambda>k. Ok 0)"
  have h2: "\<not> prefix FIFO_KEY ''7abc''" by (simp add: FIFO_KEY_def)
  have h3: "sscanf_d_d ''7abc'' (- 1) (- 1) = Some (1, 7, - 1)" by (simp add: eval_defs)
  from stray_descriptor [OF flag_7abc h2 h3, of ?w] obtain s w1 w2
    where j: "Jobserver (Some ''--jobserver-auth=7abc'') ?w = (Returns s, w1)"
      and t: "trace w1 = trace ?w @ [Warning (''invalid jobserver value: '%s'' @ [CHR 0x27])
                                       [Str ''7abc'']]"
      and e: "\<not> Enabled s"
      and d: "Jobserver_destroy s w1 = (Returns (s\<lparr>rfd := - 1, wfd := - 1\<rparr>), w2)"
             "trace w2 = trace w1 @ [Sys_close 7]"
    by auto
  have "fst (Jobserver (Some ''--jobserver-auth=7abc'') ?w) = Returns stray_7"
    by (simp add: eval_defs stray_7_def)
  with j have s: "s = stray_7" by simp
  have t0: "trace ?w = []" by (simp add: fresh_world_def)
  from j t e d show ?thesis unfolding s t0 using flag_7abc h2 h3 by auto
qed

end
